theory Spec2Isabelle
  imports Main "HOL-Library.Word"
begin

unbundle bit_operations_syntax

section \<open>Data model\<close>

text \<open>
  Machine integers are words: \<open>uint8_t\<close>, \<open>uint32_t\<close>, \<open>uint64_t\<close> are read with
  \<open>unat\<close>; \<open>int\<close>, \<open>int64_t\<close> and \<open>time_t\<close> are words read with \<open>sint\<close>.
  \<open>size_t\<close> lengths and positions are natural numbers (the length of a list).
  A byte buffer is a list of bytes.  Record fields carry the name of the C field behind a
  short tag of their struct (\<open>tx_version\<close> is \<open>tx->version\<close>), since two records cannot
  share a field name.
\<close>

type_synonym u8 = "8 word"
type_synonym u32 = "32 word"
type_synonym u64 = "64 word"
type_synonym i32 = "32 word"
type_synonym i64 = "64 word"
type_synonym bytes = "u8 list"

record btc_outpoint =
  op_hash :: bytes
  op_index :: u32

record btc_input =
  in_prevout :: btc_outpoint
  in_script :: bytes
  in_witness :: "bytes list"
  in_sequence :: u32

record btc_output =
  out_value :: i64
  out_script :: bytes

text \<open>
  The transient \<open>_index\<close> of a transaction is written and read by the compact block
  functions only; the model keeps it beside the transaction, in the \<open>ptx\<close> vector of the
  compact block.
\<close>

record btc_tx =
  tx_version :: u32
  tx_inputs :: "btc_input list"
  tx_outputs :: "btc_output list"
  tx_locktime :: u32

record btc_header =
  hdr_version :: u32
  hdr_prev_block :: bytes
  hdr_merkle_root :: bytes
  hdr_time :: u32
  hdr_bits :: u32
  hdr_nonce :: u32

record btc_block =
  blk_header :: btc_header
  blk_txs :: "btc_tx list"

section \<open>The codec library\<close>

text \<open>
  Modelled from the spec: the primitive codecs that tx.c calls (\<open>btc_uint32_write\<close>,
  \<open>btc_size_read\<close>, \<open>btc_inpvec_write\<close>, ...) are declared in impl.h and the headers of
  the library, which are not among the sources.  Section 6 of the specification lists them:
  fixed-width integers, \<open>size\<close> (the varint), \<open>raw(n)\<close>, and the readers and writers
  of outpoint, script, input, output and stack; the wire formats are those of section 3 and
  of the Bitcoin protocol, little-endian.  A writer returns the bytes it appends; a reader
  takes the bytes that are left and returns its value with the rest, or \<open>None\<close>.  The
  \<open>_update\<close> variants feed a hash context the bytes that the writer of the same name
  appends.
\<close>

fun le_bytes :: "nat \<Rightarrow> nat \<Rightarrow> bytes" where
  "le_bytes 0 n = []"
| "le_bytes (Suc k) n = of_nat (n mod 256) # le_bytes k (n div 256)"

fun le_nat :: "bytes \<Rightarrow> nat" where
  "le_nat [] = 0"
| "le_nat (b # bs) = unat b + 256 * le_nat bs"

definition read_le :: "nat \<Rightarrow> bytes \<Rightarrow> (nat \<times> bytes) option" where
  "read_le k xs = (if length xs < k then None else Some (le_nat (take k xs), drop k xs))"

definition btc_uint8_write :: "u8 \<Rightarrow> bytes" where
  "btc_uint8_write v = [v]"

definition btc_uint32_write :: "u32 \<Rightarrow> bytes" where
  "btc_uint32_write v = le_bytes 4 (unat v)"

definition btc_uint32_read :: "bytes \<Rightarrow> (u32 \<times> bytes) option" where
  "btc_uint32_read xs = (case read_le 4 xs of None \<Rightarrow> None | Some (n, r) \<Rightarrow> Some (of_nat n, r))"

definition btc_int64_write :: "i64 \<Rightarrow> bytes" where
  "btc_int64_write v = le_bytes 8 (unat v)"

definition btc_int64_read :: "bytes \<Rightarrow> (i64 \<times> bytes) option" where
  "btc_int64_read xs = (case read_le 8 xs of None \<Rightarrow> None | Some (n, r) \<Rightarrow> Some (of_nat n, r))"

definition btc_raw_read :: "nat \<Rightarrow> bytes \<Rightarrow> (bytes \<times> bytes) option" where
  "btc_raw_read n xs = (if length xs < n then None else Some (take n xs, drop n xs))"

definition btc_size_write :: "nat \<Rightarrow> bytes" where
  "btc_size_write n =
     (if n < 0xfd then [of_nat n]
      else if n \<le> 0xffff then 0xfd # le_bytes 2 n
      else if n \<le> 0xffffffff then 0xfe # le_bytes 4 n
      else 0xff # le_bytes 8 n)"

definition btc_size_read :: "bytes \<Rightarrow> (nat \<times> bytes) option" where
  "btc_size_read xs =
     (case xs of
        [] \<Rightarrow> None
      | b # r \<Rightarrow>
          if b = 0xff then read_le 8 r
          else if b = 0xfe then read_le 4 r
          else if b = 0xfd then read_le 2 r
          else Some (unat b, r))"

definition btc_outpoint_write :: "btc_outpoint \<Rightarrow> bytes" where
  "btc_outpoint_write p = op_hash p @ btc_uint32_write (op_index p)"

definition btc_outpoint_read :: "bytes \<Rightarrow> (btc_outpoint \<times> bytes) option" where
  "btc_outpoint_read xs =
     (case btc_raw_read 32 xs of
        None \<Rightarrow> None
      | Some (h, r) \<Rightarrow>
          (case btc_uint32_read r of
             None \<Rightarrow> None
           | Some (i, r') \<Rightarrow> Some (\<lparr>op_hash = h, op_index = i\<rparr>, r')))"

definition btc_script_write :: "bytes \<Rightarrow> bytes" where
  "btc_script_write sc = btc_size_write (length sc) @ sc"

definition btc_script_read :: "bytes \<Rightarrow> (bytes \<times> bytes) option" where
  "btc_script_read xs =
     (case btc_size_read xs of None \<Rightarrow> None | Some (n, r) \<Rightarrow> btc_raw_read n r)"

text \<open>An input on the wire is its outpoint, script and sequence; its witness travels apart.\<close>

definition btc_input_write :: "btc_input \<Rightarrow> bytes" where
  "btc_input_write inp =
     btc_outpoint_write (in_prevout inp) @ btc_script_write (in_script inp)
       @ btc_uint32_write (in_sequence inp)"

definition btc_input_read :: "bytes \<Rightarrow> (btc_input \<times> bytes) option" where
  "btc_input_read xs =
     (case btc_outpoint_read xs of
        None \<Rightarrow> None
      | Some (p, r) \<Rightarrow>
          (case btc_script_read r of
             None \<Rightarrow> None
           | Some (sc, r') \<Rightarrow>
               (case btc_uint32_read r' of
                  None \<Rightarrow> None
                | Some (sq, r'') \<Rightarrow>
                    Some (\<lparr>in_prevout = p, in_script = sc, in_witness = [], in_sequence = sq\<rparr>,
                          r''))))"

definition btc_output_write :: "btc_output \<Rightarrow> bytes" where
  "btc_output_write out = btc_int64_write (out_value out) @ btc_script_write (out_script out)"

definition btc_output_read :: "bytes \<Rightarrow> (btc_output \<times> bytes) option" where
  "btc_output_read xs =
     (case btc_int64_read xs of
        None \<Rightarrow> None
      | Some (v, r) \<Rightarrow>
          (case btc_script_read r of
             None \<Rightarrow> None
           | Some (sc, r') \<Rightarrow> Some (\<lparr>out_value = v, out_script = sc\<rparr>, r')))"

text \<open>A vector on the wire is its length as a \<open>size\<close> and its items, one after the other.\<close>

fun read_items :: "(bytes \<Rightarrow> ('a \<times> bytes) option) \<Rightarrow> nat \<Rightarrow> bytes \<Rightarrow> ('a list \<times> bytes) option" where
  "read_items rd 0 xs = Some ([], xs)"
| "read_items rd (Suc n) xs =
     (case rd xs of
        None \<Rightarrow> None
      | Some (a, r) \<Rightarrow>
          (case read_items rd n r of
             None \<Rightarrow> None
           | Some (as, r') \<Rightarrow> Some (a # as, r')))"

definition write_vector :: "('a \<Rightarrow> bytes) \<Rightarrow> 'a list \<Rightarrow> bytes" where
  "write_vector wr as = btc_size_write (length as) @ concat (map wr as)"

definition read_vector :: "(bytes \<Rightarrow> ('a \<times> bytes) option) \<Rightarrow> bytes \<Rightarrow> ('a list \<times> bytes) option" where
  "read_vector rd xs =
     (case btc_size_read xs of None \<Rightarrow> None | Some (n, r) \<Rightarrow> read_items rd n r)"

definition btc_inpvec_write :: "btc_input list \<Rightarrow> bytes" where
  "btc_inpvec_write = write_vector btc_input_write"

definition btc_inpvec_read :: "bytes \<Rightarrow> (btc_input list \<times> bytes) option" where
  "btc_inpvec_read = read_vector btc_input_read"

definition btc_outvec_write :: "btc_output list \<Rightarrow> bytes" where
  "btc_outvec_write = write_vector btc_output_write"

definition btc_outvec_read :: "bytes \<Rightarrow> (btc_output list \<times> bytes) option" where
  "btc_outvec_read = read_vector btc_output_read"

definition btc_stack_write :: "bytes list \<Rightarrow> bytes" where
  "btc_stack_write = write_vector btc_script_write"

definition btc_stack_read :: "bytes \<Rightarrow> (bytes list \<times> bytes) option" where
  "btc_stack_read = read_vector btc_script_read"

definition btc_inpvec_size :: "btc_input list \<Rightarrow> nat" where
  "btc_inpvec_size ins = length (btc_inpvec_write ins)"

definition btc_outvec_size :: "btc_output list \<Rightarrow> nat" where
  "btc_outvec_size outs = length (btc_outvec_write outs)"

text \<open>
  Modelled from the spec: \<open>btc_outpoint_is_null\<close> is not among the sources.  Section 3: an
  outpoint is null iff its txid is all-zero and its index is \<open>0xFFFFFFFF\<close>.
\<close>

definition btc_outpoint_is_null :: "btc_outpoint \<Rightarrow> bool" where
  "btc_outpoint_is_null p \<longleftrightarrow> op_hash p = replicate 32 0 \<and> op_index p = 0xffffffff"

section \<open>Transactions (tx.c)\<close>

definition btc_tx_is_coinbase :: "btc_tx \<Rightarrow> bool" where
  "btc_tx_is_coinbase tx =
     (if length (tx_inputs tx) \<noteq> 1 then False
      else btc_outpoint_is_null (in_prevout (tx_inputs tx ! 0)))"

fun has_witness_loop :: "btc_input list \<Rightarrow> bool" where
  "has_witness_loop [] = False"
| "has_witness_loop (input # rest) =
     (if length (in_witness input) > 0 then True else has_witness_loop rest)"

definition btc_tx_has_witness :: "btc_tx \<Rightarrow> bool" where
  "btc_tx_has_witness tx = has_witness_loop (tx_inputs tx)"

subsection \<open>Signature hashes\<close>

text \<open>
  The constants \<open>BTC_SIGHASH_NONE\<close>, \<open>BTC_SIGHASH_SINGLE\<close> and
  \<open>BTC_SIGHASH_ANYONECANPAY\<close> of script.h, which is not among the sources, are the fields of
  a parameter \<open>K\<close>; \<open>bitcoin_sighash_types\<close> holds Bitcoin's values.  The double SHA-256 of
  crypto/hash.h is the parameter \<open>hash256\<close>: a context that is initialised, updated and
  finalised yields \<open>hash256\<close> of the bytes it was fed.  \<open>btc_script_remove_separators\<close> of
  script.c is the parameter \<open>remove_separators\<close>.
\<close>

record sighash_types =
  sighash_none :: u32
  sighash_single :: u32
  sighash_anyonecanpay :: u32

definition bitcoin_sighash_types :: sighash_types where
  "bitcoin_sighash_types = \<lparr>sighash_none = 2, sighash_single = 3, sighash_anyonecanpay = 0x80\<rparr>"

text \<open>The loop over the inputs of \<open>btc_tx_sighash_v0\<close>, from input \<open>i\<close>.\<close>

fun sighash_v0_inputs :: "sighash_types \<Rightarrow> bytes \<Rightarrow> u32 \<Rightarrow> nat \<Rightarrow> nat \<Rightarrow> btc_input list \<Rightarrow> bytes" where
  "sighash_v0_inputs K prev type index i [] = []"
| "sighash_v0_inputs K prev type index i (input # rest) =
     btc_outpoint_write (in_prevout input)
     @ (if i = index then btc_script_write prev @ btc_uint32_write (in_sequence input)
        else btc_size_write 0
             @ (if type AND 0x1f = sighash_none K \<or> type AND 0x1f = sighash_single K
                then btc_uint32_write 0
                else btc_uint32_write (in_sequence input)))
     @ sighash_v0_inputs K prev type index (i + 1) rest"

definition btc_tx_sighash_v0 ::
  "(bytes \<Rightarrow> bytes) \<Rightarrow> (bytes \<Rightarrow> bytes) \<Rightarrow> sighash_types
     \<Rightarrow> btc_tx \<Rightarrow> nat \<Rightarrow> bytes \<Rightarrow> u32 \<Rightarrow> bytes option" where
  "btc_tx_sighash_v0 hash256 remove_separators K tx index prev0 type =
     (if type AND 0x1f = sighash_single K \<and> index \<ge> length (tx_outputs tx)
      then Some (0x01 # replicate 31 0)
      else
        (let prev = remove_separators prev0;
             ins =
               (if type AND sighash_anyonecanpay K \<noteq> 0 then
                  (if index \<ge> length (tx_inputs tx) then None
                   else
                     (let input = tx_inputs tx ! index in
                      Some (btc_size_write 1 @ btc_outpoint_write (in_prevout input)
                            @ btc_script_write prev @ btc_uint32_write (in_sequence input))))
                else Some (btc_size_write (length (tx_inputs tx))
                           @ sighash_v0_inputs K prev type index 0 (tx_inputs tx)));
             outs =
               (if type AND 0x1f = sighash_none K then btc_size_write 0
                else if type AND 0x1f = sighash_single K then
                  btc_size_write (index + 1)
                  @ concat (replicate index (btc_int64_write (-1) @ btc_size_write 0))
                  @ btc_output_write (tx_outputs tx ! index)
                else btc_size_write (length (tx_outputs tx))
                     @ concat (map btc_output_write (tx_outputs tx)))
         in case ins of
              None \<Rightarrow> None
            | Some ins' \<Rightarrow>
                Some (hash256 (btc_uint32_write (tx_version tx) @ ins' @ outs
                               @ btc_uint32_write (tx_locktime tx) @ btc_uint32_write type))))"

text \<open>\<open>btc_tx_cache_t\<close>: three 32-byte slots, each with its flag.\<close>

record btc_tx_cache =
  cache_prevouts :: bytes
  cache_has_prevouts :: bool
  cache_sequences :: bytes
  cache_has_sequences :: bool
  cache_outputs :: bytes
  cache_has_outputs :: bool

text \<open>
  The three blocks of \<open>btc_tx_sighash_v1\<close> that fill \<open>prevouts\<close>, \<open>sequences\<close> and
  \<open>outputs\<close>.  The cache is a pointer that may be \<open>NULL\<close>: an option.  Each block yields
  its 32 bytes and the cache as it leaves it.
\<close>

definition sighash_v1_prevouts ::
  "(bytes \<Rightarrow> bytes) \<Rightarrow> sighash_types \<Rightarrow> btc_tx \<Rightarrow> u32 \<Rightarrow> btc_tx_cache option
     \<Rightarrow> bytes \<times> btc_tx_cache option" where
  "sighash_v1_prevouts hash256 K tx type cache =
     (if type AND sighash_anyonecanpay K = 0 then
        (if cache \<noteq> None \<and> cache_has_prevouts (the cache) then (cache_prevouts (the cache), cache)
         else
           (let prevouts = hash256 (concat (map (\<lambda>input. btc_outpoint_write (in_prevout input))
                                              (tx_inputs tx)))
            in (prevouts,
                case cache of
                  None \<Rightarrow> None
                | Some c \<Rightarrow> Some (c\<lparr>cache_prevouts := prevouts, cache_has_prevouts := True\<rparr>))))
      else (replicate 32 0, cache))"

definition sighash_v1_sequences ::
  "(bytes \<Rightarrow> bytes) \<Rightarrow> sighash_types \<Rightarrow> btc_tx \<Rightarrow> u32 \<Rightarrow> btc_tx_cache option
     \<Rightarrow> bytes \<times> btc_tx_cache option" where
  "sighash_v1_sequences hash256 K tx type cache =
     (if type AND sighash_anyonecanpay K = 0
         \<and> type AND 0x1f \<noteq> sighash_single K
         \<and> type AND 0x1f \<noteq> sighash_none K then
        (if cache \<noteq> None \<and> cache_has_sequences (the cache) then (cache_sequences (the cache), cache)
         else
           (let sequences = hash256 (concat (map (\<lambda>input. btc_uint32_write (in_sequence input))
                                               (tx_inputs tx)))
            in (sequences,
                case cache of
                  None \<Rightarrow> None
                | Some c \<Rightarrow> Some (c\<lparr>cache_sequences := sequences, cache_has_sequences := True\<rparr>))))
      else (replicate 32 0, cache))"

definition sighash_v1_outputs ::
  "(bytes \<Rightarrow> bytes) \<Rightarrow> sighash_types \<Rightarrow> btc_tx \<Rightarrow> nat \<Rightarrow> u32 \<Rightarrow> btc_tx_cache option
     \<Rightarrow> bytes \<times> btc_tx_cache option" where
  "sighash_v1_outputs hash256 K tx index type cache =
     (if type AND 0x1f \<noteq> sighash_single K \<and> type AND 0x1f \<noteq> sighash_none K then
        (if cache \<noteq> None \<and> cache_has_outputs (the cache) then (cache_outputs (the cache), cache)
         else
           (let outputs = hash256 (concat (map btc_output_write (tx_outputs tx)))
            in (outputs,
                case cache of
                  None \<Rightarrow> None
                | Some c \<Rightarrow> Some (c\<lparr>cache_outputs := outputs, cache_has_outputs := True\<rparr>))))
      else if type AND 0x1f = sighash_single K then
        (if index < length (tx_outputs tx)
         then (hash256 (btc_output_write (tx_outputs tx ! index)), cache)
         else (replicate 32 0, cache))
      else (replicate 32 0, cache))"

text \<open>
  \<open>btc_tx_sighash_v1\<close>: the hash and the cache after the call.  It starts by reading
  \<open>tx->inputs.items[index]\<close>: outside the vector the result is \<open>None\<close>.
\<close>

definition btc_tx_sighash_v1 ::
  "(bytes \<Rightarrow> bytes) \<Rightarrow> sighash_types \<Rightarrow> btc_tx \<Rightarrow> nat \<Rightarrow> bytes \<Rightarrow> i64 \<Rightarrow> u32
     \<Rightarrow> btc_tx_cache option \<Rightarrow> (bytes \<times> btc_tx_cache option) option" where
  "btc_tx_sighash_v1 hash256 K tx index prev val type cache =
     (if index \<ge> length (tx_inputs tx) then None
      else
        (let input = tx_inputs tx ! index;
             (prevouts, cache1) = sighash_v1_prevouts hash256 K tx type cache;
             (sequences, cache2) = sighash_v1_sequences hash256 K tx type cache1;
             (outputs, cache3) = sighash_v1_outputs hash256 K tx index type cache2
         in Some (hash256 (btc_uint32_write (tx_version tx) @ prevouts @ sequences
                           @ btc_outpoint_write (in_prevout input) @ btc_script_write prev
                           @ btc_int64_write val @ btc_uint32_write (in_sequence input)
                           @ outputs @ btc_uint32_write (tx_locktime tx)
                           @ btc_uint32_write type),
                  cache3)))"

subsection \<open>Verification\<close>

record btc_coin =
  coin_version :: u32
  coin_height :: u32
  coin_coinbase :: bool
  coin_spent :: bool
  coin_output :: btc_output

text \<open>
  \<open>btc_script_verify\<close> and its code \<open>BTC_SCRIPT_ERR_OK\<close> belong to script.c and script.h,
  which are not among the sources: they are the parameters \<open>script_verify\<close>, which yields
  its return value and the cache as it leaves it, and \<open>err_ok\<close>.  \<open>btc_view_get\<close> of
  coins.h is the parameter \<open>view_get\<close>, \<open>None\<close> being the C \<open>NULL\<close>.
\<close>

type_synonym script_verifier =
  "bytes \<Rightarrow> bytes list \<Rightarrow> bytes \<Rightarrow> btc_tx \<Rightarrow> nat \<Rightarrow> i64 \<Rightarrow> u32 \<Rightarrow> btc_tx_cache \<Rightarrow> int \<times> btc_tx_cache"

definition btc_tx_verify_input ::
  "script_verifier \<Rightarrow> int \<Rightarrow> btc_tx \<Rightarrow> nat \<Rightarrow> btc_output \<Rightarrow> u32 \<Rightarrow> btc_tx_cache
     \<Rightarrow> (bool \<times> btc_tx_cache) option" where
  "btc_tx_verify_input script_verify err_ok tx index coin flags cache =
     (if index \<ge> length (tx_inputs tx) then None
      else
        (let input = tx_inputs tx ! index;
             (ret, cache') = script_verify (in_script input) (in_witness input) (out_script coin)
                               tx index (out_value coin) flags cache
         in Some (ret = err_ok, cache')))"

text \<open>The loop of \<open>btc_tx_verify\<close> over the inputs that are left, from input \<open>i\<close>.\<close>

fun verify_loop ::
  "script_verifier \<Rightarrow> int \<Rightarrow> ('view \<Rightarrow> btc_outpoint \<Rightarrow> btc_coin option) \<Rightarrow> btc_tx \<Rightarrow> 'view \<Rightarrow> u32
     \<Rightarrow> nat \<Rightarrow> btc_tx_cache \<Rightarrow> btc_input list \<Rightarrow> bool option" where
  "verify_loop script_verify err_ok view_get tx view flags i cache [] = Some True"
| "verify_loop script_verify err_ok view_get tx view flags i cache (input # rest) =
     (case view_get view (in_prevout input) of
        None \<Rightarrow> Some False
      | Some coin \<Rightarrow>
          (case btc_tx_verify_input script_verify err_ok tx i (coin_output coin) flags cache of
             None \<Rightarrow> None
           | Some (ok, cache') \<Rightarrow>
               if \<not> ok then Some False
               else verify_loop script_verify err_ok view_get tx view flags (i + 1) cache' rest))"

definition zero_cache :: btc_tx_cache where
  "zero_cache = \<lparr>cache_prevouts = replicate 32 0, cache_has_prevouts = False,
                 cache_sequences = replicate 32 0, cache_has_sequences = False,
                 cache_outputs = replicate 32 0, cache_has_outputs = False\<rparr>"

definition btc_tx_verify ::
  "script_verifier \<Rightarrow> int \<Rightarrow> ('view \<Rightarrow> btc_outpoint \<Rightarrow> btc_coin option) \<Rightarrow> btc_tx \<Rightarrow> 'view \<Rightarrow> u32
     \<Rightarrow> bool option" where
  "btc_tx_verify script_verify err_ok view_get tx view flags =
     verify_loop script_verify err_ok view_get tx view flags 0 zero_cache (tx_inputs tx)"

subsection \<open>Sanity checks\<close>

text \<open>
  Modelled from the spec: \<open>BTC_MAX_MONEY\<close> belongs to consensus.h, which is not among the
  sources.  Section 3: \<open>MAX_MONEY = 21 * 10^14\<close>.  \<open>BTC_MAX_BLOCK_SIZE\<close>, which the
  specification does not give, is the parameter \<open>max_block_size\<close>.
\<close>

definition BTC_MAX_MONEY :: int where
  "BTC_MAX_MONEY = 2100000000000000"

record btc_verify_error =
  err_msg :: string
  err_score :: nat

text \<open>\<open>THROW(m, s)\<close>: the error, and the function returns 0.\<close>

definition THROW :: "string \<Rightarrow> nat \<Rightarrow> btc_verify_error" where
  "THROW m sc = \<lparr>err_msg = m, err_score = sc\<rparr>"

definition btc_tx_base_size :: "btc_tx \<Rightarrow> nat" where
  "btc_tx_base_size tx = 4 + btc_inpvec_size (tx_inputs tx) + btc_outvec_size (tx_outputs tx) + 4"

text \<open>
  Modelled from the spec: the set of outpoints of \<open>btc_tx_has_duplicate_inputs\<close> comes from
  map.h, which is not among the sources.  Section 6 takes a set as available: \<open>kh_put\<close>
  adds a key and reports with \<open>ret = 0\<close> a key that the set holds already.  \<open>seen\<close> is
  the set.
\<close>

fun duplicate_inputs_loop :: "btc_outpoint list \<Rightarrow> btc_input list \<Rightarrow> bool" where
  "duplicate_inputs_loop seen [] = False"
| "duplicate_inputs_loop seen (input # rest) =
     (if in_prevout input \<in> set seen then True
      else duplicate_inputs_loop (in_prevout input # seen) rest)"

definition btc_tx_has_duplicate_inputs :: "btc_tx \<Rightarrow> bool" where
  "btc_tx_has_duplicate_inputs tx = duplicate_inputs_loop [] (tx_inputs tx)"

text \<open>
  The loop of \<open>btc_tx_check_sanity\<close> over the outputs, with the \<open>int64_t total\<close>
  (\<open>total0\<close> before and \<open>total1\<close> after \<open>total += output->value\<close>, which wraps); the
  result is the error it throws, if any.
\<close>

fun sanity_outputs :: "i64 \<Rightarrow> btc_output list \<Rightarrow> btc_verify_error option" where
  "sanity_outputs total0 [] = None"
| "sanity_outputs total0 (output # rest) =
     (if sint (out_value output) < 0 then Some (THROW ''bad-txns-vout-negative'' 100)
      else if sint (out_value output) > BTC_MAX_MONEY then Some (THROW ''bad-txns-vout-toolarge'' 100)
      else
        (let total1 = total0 + out_value output in
         if sint total1 < 0 \<or> sint total1 > BTC_MAX_MONEY
         then Some (THROW ''bad-txns-txouttotal-toolarge'' 100)
         else sanity_outputs total1 rest))"

fun sanity_prevouts :: "btc_input list \<Rightarrow> btc_verify_error option" where
  "sanity_prevouts [] = None"
| "sanity_prevouts (input # rest) =
     (if btc_outpoint_is_null (in_prevout input) then Some (THROW ''bad-txns-prevout-null'' 10)
      else sanity_prevouts rest)"

text \<open>\<open>btc_tx_check_sanity\<close>: \<open>None\<close> when it returns 1, the error when it returns 0.\<close>

definition btc_tx_check_sanity :: "nat \<Rightarrow> btc_tx \<Rightarrow> btc_verify_error option" where
  "btc_tx_check_sanity max_block_size tx =
     (if length (tx_inputs tx) = 0 then Some (THROW ''bad-txns-vin-empty'' 100)
      else if length (tx_outputs tx) = 0 then Some (THROW ''bad-txns-vout-empty'' 100)
      else if btc_tx_base_size tx > max_block_size then Some (THROW ''bad-txns-oversize'' 100)
      else
        (case sanity_outputs 0 (tx_outputs tx) of
           Some e \<Rightarrow> Some e
         | None \<Rightarrow>
             if btc_tx_has_duplicate_inputs tx then Some (THROW ''bad-txns-inputs-duplicate'' 100)
             else if btc_tx_is_coinbase tx then
               (let size = length (in_script (tx_inputs tx ! 0)) in
                if size < 2 \<or> size > 100 then Some (THROW ''bad-cb-length'' 100) else None)
             else sanity_prevouts (tx_inputs tx)))"

subsection \<open>Serialization\<close>

definition btc_tx_write :: "btc_tx \<Rightarrow> bytes" where
  "btc_tx_write tx =
     (let witness = btc_tx_has_witness tx in
      btc_uint32_write (tx_version tx)
      @ (if witness then btc_uint8_write 0 @ btc_uint8_write 1 else [])
      @ btc_inpvec_write (tx_inputs tx)
      @ btc_outvec_write (tx_outputs tx)
      @ (if witness then concat (map (\<lambda>input. btc_stack_write (in_witness input)) (tx_inputs tx))
         else [])
      @ btc_uint32_write (tx_locktime tx))"

text \<open>The loop of \<open>btc_tx_read\<close> that reads one witness stack into each input.\<close>

fun read_witnesses :: "btc_input list \<Rightarrow> bytes \<Rightarrow> (btc_input list \<times> bytes) option" where
  "read_witnesses [] xs = Some ([], xs)"
| "read_witnesses (input # rest) xs =
     (case btc_stack_read xs of
        None \<Rightarrow> None
      | Some (w, r) \<Rightarrow>
          (case read_witnesses rest r of
             None \<Rightarrow> None
           | Some (rest', r') \<Rightarrow> Some (input\<lparr>in_witness := w\<rparr> # rest', r')))"

text \<open>
  \<open>btc_tx_read\<close>, into a fresh transaction: the transaction and the bytes that are left
  when it returns 1, \<open>None\<close> when it returns 0.
\<close>

definition btc_tx_read :: "bytes \<Rightarrow> (btc_tx \<times> bytes) option" where
  "btc_tx_read xs0 =
     (case btc_uint32_read xs0 of
        None \<Rightarrow> None
      | Some (version, xs1) \<Rightarrow>
          (let (flags, xs2) =
                 (if length xs1 \<ge> 2 \<and> xs1 ! 0 = 0 \<and> xs1 ! 1 \<noteq> 0
                  then (xs1 ! 1, drop 2 xs1) else (0 :: u8, xs1))
           in case btc_inpvec_read xs2 of
                None \<Rightarrow> None
              | Some (inputs, xs3) \<Rightarrow>
                  (case btc_outvec_read xs3 of
                     None \<Rightarrow> None
                   | Some (outputs, xs4) \<Rightarrow>
                       (case (if flags AND 1 \<noteq> 0
                              then (case read_witnesses inputs xs4 of
                                      None \<Rightarrow> None
                                    | Some (inputs', xs5) \<Rightarrow> Some (flags XOR 1, inputs', xs5))
                              else Some (flags, inputs, xs4)) of
                          None \<Rightarrow> None
                        | Some (flags', inputs', xs5) \<Rightarrow>
                            if flags' \<noteq> 0 then None
                            else if length inputs' = 0 \<and> length outputs \<noteq> 0 then None
                            else
                              (case btc_uint32_read xs5 of
                                 None \<Rightarrow> None
                               | Some (locktime, xs6) \<Rightarrow>
                                   Some (\<lparr>tx_version = version, tx_inputs = inputs',
                                          tx_outputs = outputs, tx_locktime = locktime\<rparr>,
                                         xs6))))))"

section \<open>The chain database (node/chaindb.c)\<close>

text \<open>
  \<open>btc_tx_coin\<close> of tx.c.  An output index outside the vector is \<open>None\<close>.
  Modelled from the spec: \<open>btc_coin_create\<close> is not among the sources; section 3 gives a
  coin a spent flag, which a fresh coin does not carry.
\<close>

definition btc_tx_coin :: "btc_tx \<Rightarrow> nat \<Rightarrow> u32 \<Rightarrow> btc_coin option" where
  "btc_tx_coin tx index height =
     (if index \<ge> length (tx_outputs tx) then None
      else Some \<lparr>coin_version = tx_version tx, coin_height = height,
                 coin_coinbase = btc_tx_is_coinbase tx, coin_spent = False,
                 coin_output = tx_outputs tx ! index\<rparr>)"

subsection \<open>Views and undo logs\<close>

text \<open>
  Modelled from the spec: the view and the undo log (coins.h, view.c, undo.c) are not among
  the sources.  Section 3: a view is a mapping from outpoint to coin plus an ordered undo
  log, a stack of the coins spent by the batch; a coin with \<open>spent = true\<close> is a tombstone.
  The mapping is a list of pairs with one pair for each outpoint, in the order of the first
  insertion.  \<open>btc_view_put\<close> stores a coin at an outpoint; \<open>btc_view_add\<close> stores one
  coin for each output of a transaction, at the outpoint made of the txid and the index of
  the output, with the \<open>spent\<close> flag it is given (section 4.3.4: "mark all outputs of this
  tx as spent"); \<open>btc_undo_pop\<close> takes the last coin off the log, and there is none to
  take off an empty log (\<open>None\<close>).  The txid is the parameter \<open>txid\<close>.
\<close>

record btc_view =
  view_coins :: "(btc_outpoint \<times> btc_coin) list"
  view_undo :: "btc_coin list"

definition btc_view_create :: btc_view where
  "btc_view_create = \<lparr>view_coins = [], view_undo = []\<rparr>"

fun coins_put :: "(btc_outpoint \<times> btc_coin) list \<Rightarrow> btc_outpoint \<Rightarrow> btc_coin \<Rightarrow> (btc_outpoint \<times> btc_coin) list" where
  "coins_put [] k c = [(k, c)]"
| "coins_put ((k', c') # rest) k c = (if k' = k then (k, c) # rest else (k', c') # coins_put rest k c)"

definition btc_view_put :: "btc_view \<Rightarrow> btc_outpoint \<Rightarrow> btc_coin \<Rightarrow> btc_view" where
  "btc_view_put view prevout coin = view\<lparr>view_coins := coins_put (view_coins view) prevout coin\<rparr>"

fun view_add_loop :: "bytes \<Rightarrow> btc_tx \<Rightarrow> u32 \<Rightarrow> bool \<Rightarrow> nat \<Rightarrow> nat \<Rightarrow> btc_view \<Rightarrow> btc_view" where
  "view_add_loop h tx height spent i 0 view = view"
| "view_add_loop h tx height spent i (Suc n) view =
     (case btc_tx_coin tx i height of
        None \<Rightarrow> view
      | Some coin \<Rightarrow>
          view_add_loop h tx height spent (i + 1) n
            (btc_view_put view \<lparr>op_hash = h, op_index = of_nat i\<rparr> (coin\<lparr>coin_spent := spent\<rparr>)))"

definition btc_view_add :: "(btc_tx \<Rightarrow> bytes) \<Rightarrow> btc_view \<Rightarrow> btc_tx \<Rightarrow> u32 \<Rightarrow> bool \<Rightarrow> btc_view" where
  "btc_view_add txid view tx height spent =
     view_add_loop (txid tx) tx height spent 0 (length (tx_outputs tx)) view"

definition btc_undo_pop :: "btc_coin list \<Rightarrow> (btc_coin \<times> btc_coin list) option" where
  "btc_undo_pop undo = (if undo = [] then None else Some (last undo, butlast undo))"

subsection \<open>The state\<close>

text \<open>
  A block index entry.  Entries are C objects that point at each other: the model keeps
  them in a store, from address to entry, and \<open>prev\<close> and \<open>next\<close> are addresses
  (\<open>None\<close> is \<open>NULL\<close>).  \<open>entry->time\<close> is the time of the header.
\<close>

record btc_entry =
  entry_hash :: bytes
  entry_header :: btc_header
  entry_height :: u32
  entry_block_file :: int
  entry_block_pos :: int
  entry_undo_file :: int
  entry_undo_pos :: int
  entry_prev :: "nat option"
  entry_next :: "nat option"

text \<open>
  Modelled from the spec: the key-value environment (lmdb.h) is not among the sources.
  Section 4.3: four tables, \<open>meta\<close> with its two keys \<open>'F'\<close> and \<open>'R'\<close>, \<open>coin\<close>,
  \<open>index\<close> and \<open>tip\<close>.  A write transaction works on a copy of the tables, which a
  commit makes the tables of the database.  A value is kept as the object that its bytes
  encode (\<open>btc_coin_export\<close>, \<open>btc_entry_export\<close> and their inverses are not among the
  sources; section 3: re-reading a serialized record yields an identical record).
\<close>

record kv_tables =
  meta_F :: "(int \<times> int) option"
  meta_R :: "bytes option"
  tab_coin :: "btc_outpoint \<rightharpoonup> btc_coin"
  tab_index :: "bytes \<rightharpoonup> btc_entry"
  tab_tip :: "bytes \<rightharpoonup> u8"

text \<open>
  What the files \<open>blocks/<n>.dat\<close> hold at a position: a block or an undo log, kept as
  the object that the record encodes.
\<close>

datatype blob = BlockData btc_block | UndoData "btc_coin list"

record btc_chaindb_s =
  db_kv :: kv_tables
  db_files :: "int \<times> int \<rightharpoonup> blob"
  db_entries :: "nat \<rightharpoonup> btc_entry"
  db_hashes :: "bytes \<rightharpoonup> nat"
  db_heights :: "nat list"
  db_head :: "nat option"
  db_tail :: "nat option"
  db_file :: int
  db_pos :: int

text \<open>
  What the functions of chaindb.c take from code that is not among the sources: the txid of
  a transaction, and the lengths in bytes of an exported block and of an exported undo log.
  The file system and the key-value environment are taken not to fail: \<open>btc_fs_open\<close>,
  \<open>btc_fs_write\<close>, \<open>mdb_txn_begin\<close>, \<open>mdb_put\<close> and \<open>mdb_txn_commit\<close> succeed, and
  \<open>mdb_del\<close> fails only with \<open>MDB_NOTFOUND\<close>.  \<open>btc_fs_fsync\<close> changes nothing that
  the model keeps.
\<close>

record chaindb_env =
  env_txid :: "btc_tx \<Rightarrow> bytes"
  env_block_size :: "btc_block \<Rightarrow> nat"
  env_undo_size :: "btc_coin list \<Rightarrow> nat"

subsection \<open>btc\_chaindb\_should\_sync\<close>

text \<open>
  \<open>now\<close> is what \<open>time(NULL)\<close> returned: a \<open>time_t\<close>, 64 bits read as signed, which
  the code compares with -1 and then casts to \<open>uint32_t\<close>.
\<close>

definition btc_chaindb_should_sync :: "i64 \<Rightarrow> btc_entry \<Rightarrow> bool" where
  "btc_chaindb_should_sync now entry =
     (if now = -1 then True
      else if (ucast now :: u32) < hdr_time (entry_header entry) then True
      else if (ucast now :: u32) - hdr_time (entry_header entry) \<le> 24 * 60 * 60 then True
      else if entry_height entry mod 1000 = 0 then True
      else False)"

subsection \<open>Saving and disconnecting\<close>

text \<open>\<open>iterate_view\<close> for every coin of the view: \<open>btc_chaindb_save_view\<close>.\<close>

fun btc_chaindb_save_view ::
  "(btc_outpoint \<rightharpoonup> btc_coin) \<Rightarrow> (btc_outpoint \<times> btc_coin) list \<Rightarrow> (btc_outpoint \<rightharpoonup> btc_coin)" where
  "btc_chaindb_save_view tab [] = tab"
| "btc_chaindb_save_view tab ((k, coin) # rest) =
     btc_chaindb_save_view (if coin_spent coin then tab(k := None) else tab(k \<mapsto> coin)) rest"

definition btc_chaindb_read_undo :: "btc_chaindb_s \<Rightarrow> btc_entry \<Rightarrow> btc_coin list option" where
  "btc_chaindb_read_undo db entry =
     (if entry_undo_pos entry = -1 then Some []
      else
        (case db_files db (entry_undo_file entry, entry_undo_pos entry) of
           Some (UndoData undo) \<Rightarrow> Some undo
         | _ \<Rightarrow> None))"

definition btc_chaindb_alloc :: "btc_chaindb_s \<Rightarrow> nat \<Rightarrow> btc_chaindb_s" where
  "btc_chaindb_alloc db len =
     (if db_pos db + int len > 512 * 2 ^ 20 then db\<lparr>db_file := db_file db + 1, db_pos := 0\<rparr>
      else db)"

text \<open>
  \<open>btc_chaindb_write_block\<close> and \<open>btc_chaindb_write_undo\<close>: the database and the entry as
  they leave them.
\<close>

definition btc_chaindb_write_block ::
  "chaindb_env \<Rightarrow> btc_chaindb_s \<Rightarrow> btc_entry \<Rightarrow> btc_block \<Rightarrow> btc_chaindb_s \<times> btc_entry" where
  "btc_chaindb_write_block env db entry block =
     (let len = env_block_size env block + 4;
          db1 = btc_chaindb_alloc db len;
          db2 = db1\<lparr>db_files := (db_files db1)((db_file db1, db_pos db1) \<mapsto> BlockData block)\<rparr>;
          entry' = entry\<lparr>entry_block_file := db_file db2, entry_block_pos := db_pos db2\<rparr>
      in (db2\<lparr>db_pos := db_pos db2 + int len\<rparr>, entry'))"

definition btc_chaindb_write_undo ::
  "chaindb_env \<Rightarrow> btc_chaindb_s \<Rightarrow> btc_entry \<Rightarrow> btc_coin list \<Rightarrow> btc_chaindb_s \<times> btc_entry" where
  "btc_chaindb_write_undo env db entry undo =
     (let len = env_undo_size env undo + 4;
          db1 = btc_chaindb_alloc db len;
          db2 = db1\<lparr>db_files := (db_files db1)((db_file db1, db_pos db1) \<mapsto> UndoData undo)\<rparr>;
          entry' = entry\<lparr>entry_undo_file := db_file db2, entry_undo_pos := db_pos db2\<rparr>
      in (db2\<lparr>db_pos := db_pos db2 + int len\<rparr>, entry'))"

text \<open>
  \<open>btc_chaindb_connect_block\<close>, which always returns 1 here: the tables of the
  transaction, the database, the entry and the view as it leaves them.
\<close>

definition btc_chaindb_connect_block ::
  "chaindb_env \<Rightarrow> kv_tables \<Rightarrow> btc_chaindb_s \<Rightarrow> btc_entry \<Rightarrow> btc_view
     \<Rightarrow> kv_tables \<times> btc_chaindb_s \<times> btc_entry \<times> btc_view" where
  "btc_chaindb_connect_block env txn db entry view =
     (if entry_height entry = 0 then (txn, db, entry, view)
      else
        (let txn1 = txn\<lparr>tab_coin := btc_chaindb_save_view (tab_coin txn) (view_coins view)\<rparr>;
             undo = view_undo view
         in if length undo \<noteq> 0 then
              (let (db1, entry1) =
                     (if entry_undo_pos entry = -1 then btc_chaindb_write_undo env db entry undo
                      else (db, entry))
               in (txn1, db1, entry1, view\<lparr>view_undo := []\<rparr>))
            else (txn1, db, entry, view)))"

text \<open>
  The inner loop of \<open>btc_chaindb_disconnect_block\<close> for the transaction \<open>tx\<close>, which is
  \<open>block->txs.items[i]\<close>: \<open>j\<close> runs from \<open>tx->inputs.length - 1\<close> down to 0, and
  \<open>Suc j\<close> is the number of rounds that are left.  The input is \<open>tx->inputs.items[i]\<close>,
  as the source has it.  The state is the view and the undo log.
\<close>

fun disconnect_inputs :: "btc_tx \<Rightarrow> nat \<Rightarrow> nat \<Rightarrow> btc_view \<times> btc_coin list \<Rightarrow> (btc_view \<times> btc_coin list) option" where
  "disconnect_inputs tx i 0 st = Some st"
| "disconnect_inputs tx i (Suc j) (view, undo) =
     (if i \<ge> length (tx_inputs tx) then None
      else
        (let input = tx_inputs tx ! i in
         case btc_undo_pop undo of
           None \<Rightarrow> None
         | Some (coin, undo') \<Rightarrow>
             disconnect_inputs tx i j (btc_view_put view (in_prevout input) coin, undo')))"

text \<open>The outer loop: \<open>i\<close> runs from \<open>block->txs.length - 1\<close> down to 0.\<close>

fun disconnect_txs ::
  "(btc_tx \<Rightarrow> bytes) \<Rightarrow> btc_block \<Rightarrow> u32 \<Rightarrow> nat \<Rightarrow> btc_view \<times> btc_coin list
     \<Rightarrow> (btc_view \<times> btc_coin list) option" where
  "disconnect_txs txid block height 0 st = Some st"
| "disconnect_txs txid block height (Suc i) st =
     (let tx = blk_txs block ! i in
      case disconnect_inputs tx i (length (tx_inputs tx)) st of
        None \<Rightarrow> None
      | Some (view, undo) \<Rightarrow>
          disconnect_txs txid block height i (btc_view_add txid view tx height True, undo))"

text \<open>
  \<open>btc_chaindb_disconnect_block\<close>: \<open>None\<close> is a failed \<open>CHECK\<close> or an access outside a
  vector; otherwise the view it returns (\<open>None\<close> is \<open>NULL\<close>) and the tables of the
  transaction.
\<close>

definition btc_chaindb_disconnect_block ::
  "chaindb_env \<Rightarrow> kv_tables \<Rightarrow> btc_chaindb_s \<Rightarrow> btc_entry \<Rightarrow> btc_block
     \<Rightarrow> (btc_view option \<times> kv_tables) option" where
  "btc_chaindb_disconnect_block env txn db entry block =
     (case btc_chaindb_read_undo db entry of
        None \<Rightarrow> Some (None, txn)
      | Some undo \<Rightarrow>
          (case disconnect_txs (env_txid env) block (entry_height entry) (length (blk_txs block))
                  (btc_view_create, undo) of
             None \<Rightarrow> None
           | Some (view, undo') \<Rightarrow>
               if length undo' \<noteq> 0 then None
               else Some (Some view,
                          txn\<lparr>tab_coin := btc_chaindb_save_view (tab_coin txn) (view_coins view)\<rparr>)))"

text \<open>
  \<open>btc_chaindb_save\<close>, for the entry at the address \<open>e\<close>: its return value, the database
  and the view of the caller after the call (\<open>None\<close> is a view that is \<open>NULL\<close>).  The
  result \<open>None\<close> is a failed \<open>CHECK\<close> or an address that holds no entry (that of the
  entry, or that of its \<open>prev\<close>).
\<close>

definition btc_chaindb_save ::
  "chaindb_env \<Rightarrow> btc_chaindb_s \<Rightarrow> nat \<Rightarrow> btc_block \<Rightarrow> btc_view option
     \<Rightarrow> (int \<times> btc_chaindb_s \<times> btc_view option) option" where
  "btc_chaindb_save env db e block view =
     (case db_entries db e of
        None \<Rightarrow> None
      | Some entry \<Rightarrow>
          (let txn = db_kv db;
               (db1, entry1) =
                 (if entry_block_pos entry = -1 then btc_chaindb_write_block env db entry block
                  else (db, entry));
               (txn1, db2, entry2, view') =
                 (case view of
                    None \<Rightarrow> (txn, db1, entry1, None)
                  | Some v \<Rightarrow>
                      (case btc_chaindb_connect_block env txn db1 entry1 v of
                         (t, d, en, v') \<Rightarrow> (t, d, en, Some v')));
               db3 = db2\<lparr>db_entries := (db_entries db2)(e \<mapsto> entry2)\<rparr>;
               txn2 = txn1\<lparr>meta_F := Some (db_file db3, db_pos db3)\<rparr>;
               txn3 = txn2\<lparr>tab_index := (tab_index txn2)(entry_hash entry2 \<mapsto> entry2)\<rparr>
           in if entry_height entry2 \<noteq> 0
                 \<and> tab_tip txn3 (hdr_prev_block (entry_header entry2)) = None
              then Some (0, db3, view')
              else
                (let txn4 = (if entry_height entry2 \<noteq> 0
                             then txn3\<lparr>tab_tip := (tab_tip txn3)
                                          (hdr_prev_block (entry_header entry2) := None)\<rparr>
                             else txn3);
                     txn5 = txn4\<lparr>tab_tip := (tab_tip txn4)(entry_hash entry2 \<mapsto> 1)\<rparr>;
                     txn6 = (if view \<noteq> None then txn5\<lparr>meta_R := Some (entry_hash entry2)\<rparr>
                             else txn5);
                     db4 = db3\<lparr>db_kv := txn6\<rparr>
                 in if db_hashes db4 (entry_hash entry2) \<noteq> None then None
                    else
                      (let db5 = db4\<lparr>db_hashes := (db_hashes db4)(entry_hash entry2 \<mapsto> e)\<rparr>
                       in if view = None then Some (1, db5, view')
                          else
                            (let db6 =
                                   (case entry_prev entry2 of
                                      None \<Rightarrow> db5
                                    | Some p \<Rightarrow>
                                        (case db_entries db5 p of
                                           None \<Rightarrow> db5
                                         | Some pe \<Rightarrow>
                                             db5\<lparr>db_entries := (db_entries db5)
                                                    (p \<mapsto> pe\<lparr>entry_next := Some e\<rparr>)\<rparr>))
                             in if (case entry_prev entry2 of
                                      None \<Rightarrow> False
                                    | Some p \<Rightarrow> db_entries db5 p = None) then None
                                else if length (db_heights db6) \<noteq> unat (entry_height entry2)
                                then None
                                else
                                  Some (1,
                                        db6\<lparr>db_heights := db_heights db6 @ [e],
                                             db_head := (if entry_height entry2 = 0 then Some e
                                                         else db_head db6),
                                             db_tail := Some e\<rparr>,
                                        view'))))))"

text \<open>
  \<open>btc_chaindb_disconnect\<close>, for the entry at the address \<open>e\<close>: the view it returns
  (\<open>None\<close> is \<open>NULL\<close>) and the database after the call.
\<close>

definition btc_chaindb_disconnect ::
  "chaindb_env \<Rightarrow> btc_chaindb_s \<Rightarrow> nat \<Rightarrow> btc_block \<Rightarrow> (btc_view option \<times> btc_chaindb_s) option" where
  "btc_chaindb_disconnect env db e block =
     (case db_entries db e of
        None \<Rightarrow> None
      | Some entry \<Rightarrow>
          (case btc_chaindb_disconnect_block env (db_kv db) db entry block of
             None \<Rightarrow> None
           | Some (None, txn) \<Rightarrow> Some (None, db)
           | Some (Some view, txn1) \<Rightarrow>
               (let txn2 = txn1\<lparr>meta_R := Some (hdr_prev_block (entry_header entry))\<rparr>;
                    db1 = db\<lparr>db_kv := txn2\<rparr>
                in case entry_prev entry of
                     None \<Rightarrow> None
                   | Some p \<Rightarrow>
                       (case db_entries db1 p of
                          None \<Rightarrow> None
                        | Some pe \<Rightarrow>
                            (let db2 = db1\<lparr>db_entries := (db_entries db1)
                                              (p \<mapsto> pe\<lparr>entry_next := None\<rparr>)\<rparr>
                             in if db_heights db2 = [] \<or> last (db_heights db2) \<noteq> e then None
                                else Some (Some view,
                                           db2\<lparr>db_heights := butlast (db_heights db2),
                                                db_tail := entry_prev entry\<rparr>))))))"

section \<open>Compact blocks (bip152.c)\<close>

text \<open>
  \<open>ids\<close> are the short ids, \<open>ptx\<close> the prefilled transactions, each with its
  \<open>_index\<close>, \<open>avail\<close> the slots of the block under reconstruction (\<open>None\<close> is the C
  \<open>NULL\<close>), \<open>id_map\<close> the table from short id to position, in insertion order.
\<close>

record btc_cmpct =
  cmpct_header :: btc_header
  cmpct_ids :: "u64 list"
  cmpct_ptx :: "(nat \<times> btc_tx) list"
  cmpct_avail :: "btc_tx option list"
  cmpct_id_map :: "(u64 \<times> nat) list"
  cmpct_count :: nat

record btc_getblocktxn =
  req_hash :: bytes
  req_indexes :: "nat list"

record btc_blocktxn =
  res_hash :: bytes
  res_txs :: "btc_tx list"

text \<open>
  A loop of the C code that can leave its function early either returns a value together
  with the state it has reached (\<open>Return\<close>) or runs to its end (\<open>Done\<close>).  A failed
  \<open>CHECK\<close> and an access outside a vector are the value \<open>None\<close> of an enclosing
  option.
\<close>

datatype ('r, 's) loop = Return 'r 's | Done 's

subsection \<open>btc\_cmpct\_setup\<close>

text \<open>
  The first loop of \<open>btc_cmpct_setup\<close>.  \<open>last\<close> is a C \<open>int\<close>: a 32-bit word read
  as signed (\<open>last0\<close> before and \<open>last1\<close> after \<open>last += tx->_index + 1\<close>, which
  wraps).  \<open>n\<close> is \<open>blk->ids.length\<close>.
  The state is \<open>(avail, count)\<close>.
\<close>

fun setup_prefilled ::
  "nat \<Rightarrow> nat \<Rightarrow> i32 \<Rightarrow> (nat \<times> btc_tx) list \<Rightarrow> btc_tx option list \<times> nat
     \<Rightarrow> (int, btc_tx option list \<times> nat) loop option" where
  "setup_prefilled n i last0 [] st = Some (Done st)"
| "setup_prefilled n i last0 ((idx, tx) # ps) (av, cnt) =
     (let last1 = last0 + of_nat idx + 1 in
      if sint last1 < 0 \<or> sint last1 > 0xffff then Some (Return (-1) (av, cnt))
      else if nat (sint last1) > n + i then Some (Return (-1) (av, cnt))
      else if nat (sint last1) \<ge> length av then None
      else setup_prefilled n (i + 1) last1 ps (av[nat (sint last1) := Some tx], cnt + 1))"

text \<open>\<open>while (blk->avail.items[i + offset] != NULL) offset += 1\<close>, from position \<open>k\<close>.\<close>

function skip_filled :: "btc_tx option list \<Rightarrow> nat \<Rightarrow> nat option" where
  "skip_filled av k =
     (if k \<ge> length av then None
      else if av ! k \<noteq> None then skip_filled av (k + 1)
      else Some k)"
  by pat_completeness auto
termination
  by (relation "measure (\<lambda>(av, k). length av - k)") auto

declare skip_filled.simps [simp del]

text \<open>
  Modelled from the spec: \<open>btc_longtab_put\<close> belongs to map.h, which is not among the
  sources.  Section 4.2.3: \<open>id_map\<close> maps a short id to a position, and a duplicate id is
  a collision; the call fails, and returns 0, when the key is present, as the comment at
  the call says too.
\<close>

definition btc_longtab_put :: "(u64 \<times> nat) list \<Rightarrow> u64 \<Rightarrow> nat \<Rightarrow> (u64 \<times> nat) list option" where
  "btc_longtab_put m k v = (if k \<in> fst ` set m then None else Some (m @ [(k, v)]))"

text \<open>The second loop of \<open>btc_cmpct_setup\<close>; the state is \<open>id_map\<close>.\<close>

fun setup_ids ::
  "btc_tx option list \<Rightarrow> u64 list \<Rightarrow> nat \<Rightarrow> nat \<Rightarrow> (u64 \<times> nat) list
     \<Rightarrow> (int, (u64 \<times> nat) list) loop option" where
  "setup_ids av [] i offset m = Some (Done m)"
| "setup_ids av (x # xs) i offset m =
     (case skip_filled av (i + offset) of
        None \<Rightarrow> None
      | Some k \<Rightarrow>
          (case btc_longtab_put m x k of
             None \<Rightarrow> Some (Return 0 m)
           | Some m' \<Rightarrow> setup_ids av xs (i + 1) (k - i) m'))"

text \<open>
  \<open>btc_cmpct_setup\<close>.  \<open>BTC_MAX_BLOCK_SIZE\<close> comes from consensus.h, which is not among the
  sources: it is the parameter \<open>max_block_size\<close>.  The result is the C return value and the
  compact block as the call leaves it.
\<close>

definition btc_cmpct_setup :: "nat \<Rightarrow> btc_cmpct \<Rightarrow> (int \<times> btc_cmpct) option" where
  "btc_cmpct_setup max_block_size blk =
     (let total = length (cmpct_ptx blk) + length (cmpct_ids blk) in
      if total = 0 then Some (-1, blk)
      else if total > max_block_size div 10 then Some (-1, blk)
      else if total > (max_block_size - 81) div 60 then Some (-1, blk)
      else if cmpct_avail blk \<noteq> [] \<or> cmpct_count blk \<noteq> 0 then None
      else
        (case setup_prefilled (length (cmpct_ids blk)) 0 (-1) (cmpct_ptx blk)
                (replicate total None, cmpct_count blk) of
           None \<Rightarrow> None
         | Some (Return r (av, cnt)) \<Rightarrow> Some (r, blk\<lparr>cmpct_avail := av, cmpct_count := cnt\<rparr>)
         | Some (Done (av, cnt)) \<Rightarrow>
             (let blk1 = blk\<lparr>cmpct_avail := av, cmpct_count := cnt\<rparr> in
              if cmpct_id_map blk1 \<noteq> [] then None
              else
                (case setup_ids av (cmpct_ids blk1) 0 0 (cmpct_id_map blk1) of
                   None \<Rightarrow> None
                 | Some (Return r m) \<Rightarrow> Some (r, blk1\<lparr>cmpct_id_map := m\<rparr>)
                 | Some (Done m) \<Rightarrow> Some (1, blk1\<lparr>cmpct_id_map := m\<rparr>)))))"

subsection \<open>btc\_cmpct\_fill\_missing\<close>

text \<open>
  The loop of \<open>btc_cmpct_fill_missing\<close> over the slots that are left, with the vector
  \<open>msg->txs\<close>, \<open>offset\<close> and \<open>blk->count\<close>.  The result is whether the loop ran to
  its end (\<open>False\<close> is the \<open>return 0\<close> inside it), the slots, \<open>offset\<close> and the count.
\<close>

fun fill_loop ::
  "btc_tx option list \<Rightarrow> btc_tx list \<Rightarrow> nat \<Rightarrow> nat \<Rightarrow> bool \<times> btc_tx option list \<times> nat \<times> nat" where
  "fill_loop [] msg offset cnt = (True, [], offset, cnt)"
| "fill_loop (Some t # rest) msg offset cnt =
     (case fill_loop rest msg offset cnt of
        (fin, rest', r) \<Rightarrow> (fin, Some t # rest', r))"
| "fill_loop (None # rest) msg offset cnt =
     (if offset \<ge> length msg then (False, None # rest, offset, cnt)
      else
        (case fill_loop rest msg (offset + 1) (cnt + 1) of
           (fin, rest', r) \<Rightarrow> (fin, Some (msg ! offset) # rest', r)))"

definition btc_cmpct_fill_missing :: "btc_cmpct \<Rightarrow> btc_blocktxn \<Rightarrow> (int \<times> btc_cmpct) option" where
  "btc_cmpct_fill_missing blk msg =
     (let total = length (cmpct_ptx blk) + length (cmpct_ids blk) in
      if length (cmpct_avail blk) \<noteq> total then None
      else
        (case fill_loop (cmpct_avail blk) (res_txs msg) 0 (cmpct_count blk) of
           (fin, av, offset, cnt) \<Rightarrow>
             Some (if fin then (if offset = length (res_txs msg) then 1 else 0) else 0,
                   blk\<lparr>cmpct_avail := av, cmpct_count := cnt\<rparr>)))"

subsection \<open>btc\_blocktxn\_set\_block\<close>

text \<open>The loop over \<open>req->indexes\<close>; \<open>out\<close> is \<open>res->txs\<close>.\<close>

fun set_block_loop :: "btc_tx list \<Rightarrow> nat list \<Rightarrow> btc_tx list \<Rightarrow> btc_tx list" where
  "set_block_loop txs [] out = out"
| "set_block_loop txs (index # rest) out =
     (if index \<ge> length txs then out
      else set_block_loop txs rest (out @ [txs ! index]))"

text \<open>
  \<open>btc_header_hash\<close> is not among the sources: it is the parameter \<open>header_hash\<close>.
  The function returns nothing; the result is the response it has filled.
\<close>

definition btc_blocktxn_set_block ::
  "(btc_header \<Rightarrow> bytes) \<Rightarrow> btc_blocktxn \<Rightarrow> btc_block \<Rightarrow> btc_getblocktxn \<Rightarrow> btc_blocktxn option" where
  "btc_blocktxn_set_block header_hash res blk req =
     (if res_txs res \<noteq> [] then None
      else Some (res\<lparr>res_hash := header_hash (blk_header blk),
                     res_txs := set_block_loop (blk_txs blk) (req_indexes req) (res_txs res)\<rparr>))"

subsection \<open>Notions of the specification\<close>

text \<open>The number of empty slots and of filled slots of \<open>avail\<close>.\<close>

definition empty_slots :: "btc_tx option list \<Rightarrow> nat" where
  "empty_slots av = length (filter (\<lambda>s. s = None) av)"

definition filled_slots :: "btc_tx option list \<Rightarrow> nat" where
  "filled_slots av = length (filter (\<lambda>s. s \<noteq> None) av)"

text \<open>
  The running cursor of the specification: from \<open>last0\<close>, advanced by \<open>_index + 1\<close> for each
  prefilled transaction; \<open>cursors last0 idxs ! i\<close> is the cursor at the \<open>i\<close>-th one.
\<close>

fun cursors :: "i32 \<Rightarrow> nat list \<Rightarrow> i32 list" where
  "cursors last0 [] = []"
| "cursors last0 (idx # idxs) = (last0 + of_nat idx + 1) # cursors (last0 + of_nat idx + 1) idxs"

text \<open>
  The rejection of the cursor \<open>c\<close> at the \<open>i\<close>-th prefilled transaction, with \<open>n\<close> short
  ids, as bip152.c tests it.
\<close>

definition unreachable :: "nat \<Rightarrow> nat \<Rightarrow> i32 \<Rightarrow> bool" where
  "unreachable n i c \<longleftrightarrow> sint c < 0 \<or> sint c > 0xffff \<or> nat (sint c) > n + i"

text \<open>Storing transactions at cursors, one after the other.\<close>

fun place :: "btc_tx option list \<Rightarrow> (i32 \<times> btc_tx) list \<Rightarrow> btc_tx option list" where
  "place av [] = av"
| "place av ((c, tx) # rest) = place (av[nat (sint c) := Some tx]) rest"

text \<open>The same rejection as the specification words it (\<open>last \<ge> ids.length + i\<close>).\<close>

definition unreachable_spec :: "nat \<Rightarrow> nat \<Rightarrow> i32 \<Rightarrow> bool" where
  "unreachable_spec n i c \<longleftrightarrow> sint c < 0 \<or> sint c > 0xffff \<or> nat (sint c) \<ge> n + i"

subsection \<open>Example objects\<close>

definition ex_tx :: "u32 \<Rightarrow> btc_tx" where
  "ex_tx v = \<lparr>tx_version = v, tx_inputs = [], tx_outputs = [], tx_locktime = 0\<rparr>"

definition ex_header :: btc_header where
  "ex_header = \<lparr>hdr_version = 1, hdr_prev_block = replicate 32 0, hdr_merkle_root = replicate 32 0,
                 hdr_time = 0, hdr_bits = 0, hdr_nonce = 0\<rparr>"

text \<open>A compact block as received: one short id, one prefilled transaction with \<open>_index = 1\<close>.\<close>

definition ex_cmpct :: btc_cmpct where
  "ex_cmpct = \<lparr>cmpct_header = ex_header, cmpct_ids = [5], cmpct_ptx = [(1, ex_tx 1)],
                cmpct_avail = [], cmpct_id_map = [], cmpct_count = 0\<rparr>"

text \<open>A compact block after setup: the coinbase in place, two slots empty.\<close>

definition ex_cmpct_ready :: btc_cmpct where
  "ex_cmpct_ready = \<lparr>cmpct_header = ex_header, cmpct_ids = [5, 6], cmpct_ptx = [(0, ex_tx 1)],
                      cmpct_avail = [Some (ex_tx 1), None, None],
                      cmpct_id_map = [(5, 1), (6, 2)], cmpct_count = 1\<rparr>"

section \<open>Notions of the specification for transactions\<close>

text \<open>
  A cache is valid for a transaction when each slot that is present holds the hash that
  \<open>btc_tx_sighash_v1\<close> computes for that transaction without a cache.
\<close>

definition cache_valid :: "(bytes \<Rightarrow> bytes) \<Rightarrow> btc_tx \<Rightarrow> btc_tx_cache \<Rightarrow> bool" where
  "cache_valid hash256 tx c \<longleftrightarrow>
     (cache_has_prevouts c \<longrightarrow>
        cache_prevouts c = hash256 (concat (map (\<lambda>input. btc_outpoint_write (in_prevout input))
                                             (tx_inputs tx))))
   \<and> (cache_has_sequences c \<longrightarrow>
        cache_sequences c = hash256 (concat (map (\<lambda>input. btc_uint32_write (in_sequence input))
                                              (tx_inputs tx))))
   \<and> (cache_has_outputs c \<longrightarrow>
        cache_outputs c = hash256 (concat (map btc_output_write (tx_outputs tx))))"

text \<open>
  The cache after earlier calls of \<open>btc_tx_sighash_v1\<close> on the same transaction, each with
  its input index, previous script, value and type, from the cache \<open>cache\<close> on.  A call
  outside the inputs leaves the cache as it is.
\<close>

type_synonym sighash_call = "nat \<times> bytes \<times> i64 \<times> u32"

fun sighash_calls ::
  "(bytes \<Rightarrow> bytes) \<Rightarrow> sighash_types \<Rightarrow> btc_tx \<Rightarrow> btc_tx_cache \<Rightarrow> sighash_call list \<Rightarrow> btc_tx_cache" where
  "sighash_calls hash256 K tx cache [] = cache"
| "sighash_calls hash256 K tx cache ((index, prev, val, type) # calls) =
     (case btc_tx_sighash_v1 hash256 K tx index prev val type (Some cache) of
        Some (h, Some cache') \<Rightarrow> sighash_calls hash256 K tx cache' calls
      | _ \<Rightarrow> sighash_calls hash256 K tx cache calls)"

subsection \<open>Example transactions\<close>

definition ex_outpoint :: "u8 \<Rightarrow> u32 \<Rightarrow> btc_outpoint" where
  "ex_outpoint b i = \<lparr>op_hash = replicate 32 b, op_index = i\<rparr>"

definition ex_input :: "btc_outpoint \<Rightarrow> btc_input" where
  "ex_input p = \<lparr>in_prevout = p, in_script = [], in_witness = [], in_sequence = 0xffffffff\<rparr>"

definition ex_output :: "i64 \<Rightarrow> btc_output" where
  "ex_output v = \<lparr>out_value = v, out_script = [0x51]\<rparr>"

definition ex_coin :: "i64 \<Rightarrow> btc_coin" where
  "ex_coin v = \<lparr>coin_version = 1, coin_height = 0, coin_coinbase = False, coin_spent = False,
               coin_output = ex_output v\<rparr>"

text \<open>A transaction that spends two outpoints into one output.\<close>

definition ex_spend :: btc_tx where
  "ex_spend = \<lparr>tx_version = 1,
                tx_inputs = [ex_input (ex_outpoint 1 0), ex_input (ex_outpoint 2 0)],
                tx_outputs = [ex_output 10], tx_locktime = 0\<rparr>"

text \<open>A script verifier that accepts every input and leaves the cache as it is.\<close>

definition ex_accept :: script_verifier where
  "ex_accept sc w csc tx index val flags cache = (0, cache)"

text \<open>
  The rejections of \<open>check_sanity\<close> as the specification lists them: those of score 100 and
  the one of score 10.  The running sum is the sum of the values of the first \<open>k\<close> outputs,
  as integers.
\<close>

definition sanity_reject_100 :: "nat \<Rightarrow> btc_tx \<Rightarrow> bool" where
  "sanity_reject_100 max_block_size tx \<longleftrightarrow>
     tx_inputs tx = []
   \<or> tx_outputs tx = []
   \<or> btc_tx_base_size tx > max_block_size
   \<or> (\<exists>out\<in>set (tx_outputs tx). sint (out_value out) < 0 \<or> sint (out_value out) > BTC_MAX_MONEY)
   \<or> (\<exists>k\<le>length (tx_outputs tx).
         (\<Sum>out\<leftarrow>take k (tx_outputs tx). sint (out_value out)) < 0
       \<or> (\<Sum>out\<leftarrow>take k (tx_outputs tx). sint (out_value out)) > BTC_MAX_MONEY)
   \<or> \<not> distinct (map in_prevout (tx_inputs tx))
   \<or> (btc_tx_is_coinbase tx
       \<and> (length (in_script (tx_inputs tx ! 0)) < 2 \<or> length (in_script (tx_inputs tx ! 0)) > 100))"

definition sanity_reject_10 :: "btc_tx \<Rightarrow> bool" where
  "sanity_reject_10 tx \<longleftrightarrow>
     \<not> btc_tx_is_coinbase tx
   \<and> (\<exists>input\<in>set (tx_inputs tx). btc_outpoint_is_null (in_prevout input))"

text \<open>
  What the C types grant: a length is a \<open>size_t\<close>, below \<open>2^64\<close>, and a hash is an array
  of 32 bytes.
\<close>

definition size_ok :: "nat \<Rightarrow> bool" where
  "size_ok n \<longleftrightarrow> n < 2 ^ 64"

definition input_ok :: "btc_input \<Rightarrow> bool" where
  "input_ok input \<longleftrightarrow>
     length (op_hash (in_prevout input)) = 32
   \<and> size_ok (length (in_script input))
   \<and> size_ok (length (in_witness input))
   \<and> (\<forall>item\<in>set (in_witness input). size_ok (length item))"

definition output_ok :: "btc_output \<Rightarrow> bool" where
  "output_ok out \<longleftrightarrow> size_ok (length (out_script out))"

definition tx_ok :: "btc_tx \<Rightarrow> bool" where
  "tx_ok tx \<longleftrightarrow>
     size_ok (length (tx_inputs tx)) \<and> size_ok (length (tx_outputs tx))
   \<and> (\<forall>input\<in>set (tx_inputs tx). input_ok input)
   \<and> (\<forall>out\<in>set (tx_outputs tx). output_ok out)"

text \<open>
  The serialization of the specification with the marker \<open>0x00 0x01\<close> and an empty witness
  stack for every input.
\<close>

definition btc_tx_write_marked :: "btc_tx \<Rightarrow> bytes" where
  "btc_tx_write_marked tx =
     btc_uint32_write (tx_version tx) @ [0x00, 0x01]
     @ btc_inpvec_write (tx_inputs tx) @ btc_outvec_write (tx_outputs tx)
     @ concat (map (\<lambda>input. btc_stack_write []) (tx_inputs tx))
     @ btc_uint32_write (tx_locktime tx)"

text \<open>A transaction without inputs and with one output of value 0 and empty script.\<close>

definition ex_no_inputs :: btc_tx where
  "ex_no_inputs = \<lparr>tx_version = 1, tx_inputs = [],
                   tx_outputs = [\<lparr>out_value = 0, out_script = []\<rparr>], tx_locktime = 0\<rparr>"

text \<open>A transaction whose input carries a witness of two items.\<close>

definition ex_segwit :: btc_tx where
  "ex_segwit = \<lparr>tx_version = 2,
                 tx_inputs = [\<lparr>in_prevout = ex_outpoint 1 0, in_script = [],
                               in_witness = [[0x30, 0x01], [0x02]], in_sequence = 0xffffffff\<rparr>],
                 tx_outputs = [ex_output 10], tx_locktime = 0\<rparr>"

text \<open>A transaction of two inputs, the second with a null prevout.\<close>

definition ex_null_prevout :: btc_tx where
  "ex_null_prevout = \<lparr>tx_version = 1,
                       tx_inputs = [ex_input (ex_outpoint 1 0), ex_input (ex_outpoint 0 0xffffffff)],
                       tx_outputs = [ex_output 10], tx_locktime = 0\<rparr>"

text \<open>
  The rule of the specification for \<open>should_sync\<close>, on the wall clock \<open>now\<close> as the
  integer that \<open>time\<close> returned and the block time as the integer of the header: the clock
  is unavailable, the block time is in the future, the block is within 24 hours of the
  clock, or the height is a multiple of 1000.
\<close>

definition should_sync_spec :: "i64 \<Rightarrow> btc_entry \<Rightarrow> bool" where
  "should_sync_spec now entry \<longleftrightarrow>
     now = -1
   \<or> sint now < uint (hdr_time (entry_header entry))
   \<or> \<bar>sint now - uint (hdr_time (entry_header entry))\<bar> \<le> 24 * 60 * 60
   \<or> unat (entry_height entry) mod 1000 = 0"

subsection \<open>Example chain\<close>

text \<open>An entry of height 1 whose block has the time 1000000000 (September 2001).\<close>

definition ex_entry :: btc_entry where
  "ex_entry = \<lparr>entry_hash = replicate 32 0xe1,
                entry_header = ex_header\<lparr>hdr_prev_block := replicate 32 0xe0, hdr_time := 1000000000\<rparr>,
                entry_height = 1, entry_block_file = 0, entry_block_pos = -1,
                entry_undo_file = 0, entry_undo_pos = -1,
                entry_prev = Some 0, entry_next = None\<rparr>"

text \<open>
  A chain of one block, with two coins in the coin table, and the block that comes next:
  its coinbase, and \<open>ex_spend\<close>, which spends the two coins.  \<open>ex_view\<close> is the view of
  that block: the two coins spent, the outputs of the block added, and the undo log of the
  two coins in the order of the inputs.
\<close>

definition ex_env :: chaindb_env where
  "ex_env = \<lparr>env_txid = (\<lambda>tx. replicate 32 (0x10 + of_nat (length (tx_inputs tx)))),
             env_block_size = (\<lambda>block. 100), env_undo_size = (\<lambda>undo. 50)\<rparr>"

definition ex_coinbase :: btc_tx where
  "ex_coinbase = \<lparr>tx_version = 1,
                   tx_inputs = [\<lparr>in_prevout = ex_outpoint 0 0xffffffff, in_script = [1, 2],
                                 in_witness = [], in_sequence = 0xffffffff\<rparr>],
                   tx_outputs = [ex_output 50], tx_locktime = 0\<rparr>"

definition ex_block :: btc_block where
  "ex_block = \<lparr>blk_header = entry_header ex_entry, blk_txs = [ex_coinbase, ex_spend]\<rparr>"

definition ex_genesis :: btc_entry where
  "ex_genesis = \<lparr>entry_hash = replicate 32 0xe0, entry_header = ex_header, entry_height = 0,
                  entry_block_file = 0, entry_block_pos = 0,
                  entry_undo_file = 0, entry_undo_pos = -1,
                  entry_prev = None, entry_next = None\<rparr>"

definition ex_db :: btc_chaindb_s where
  "ex_db = \<lparr>db_kv = \<lparr>meta_F = Some (0, 104), meta_R = Some (replicate 32 0xe0),
                     tab_coin = [ex_outpoint 1 0 \<mapsto> ex_coin 5, ex_outpoint 2 0 \<mapsto> ex_coin 6],
                     tab_index = [replicate 32 0xe0 \<mapsto> ex_genesis],
                     tab_tip = [replicate 32 0xe0 \<mapsto> 1]\<rparr>,
            db_files = [(0, 0) \<mapsto> BlockData \<lparr>blk_header = ex_header, blk_txs = [ex_coinbase]\<rparr>],
            db_entries = [0 \<mapsto> ex_genesis, 1 \<mapsto> ex_entry],
            db_hashes = [replicate 32 0xe0 \<mapsto> 0],
            db_heights = [0], db_head = Some 0, db_tail = Some 0,
            db_file = 0, db_pos = 104\<rparr>"

definition ex_view :: btc_view where
  "ex_view = \<lparr>view_coins =
                 [(ex_outpoint 1 0, (ex_coin 5)\<lparr>coin_spent := True\<rparr>),
                  (ex_outpoint 2 0, (ex_coin 6)\<lparr>coin_spent := True\<rparr>),
                  (ex_outpoint 0x11 0,
                   \<lparr>coin_version = 1, coin_height = 1, coin_coinbase = True, coin_spent = False,
                    coin_output = ex_output 50\<rparr>),
                  (ex_outpoint 0x12 0,
                   \<lparr>coin_version = 1, coin_height = 1, coin_coinbase = False, coin_spent = False,
                    coin_output = ex_output 10\<rparr>)],
               view_undo = [ex_coin 5, ex_coin 6]\<rparr>"

section \<open>Properties of the compact block functions\<close>

lemma set_block_loop_eq:
  "set_block_loop txs ixs out = out @ map (\<lambda>i. txs ! i) (takeWhile (\<lambda>i. i < length txs) ixs)"
  by (induction ixs arbitrary: out) auto

text \<open>
  C9.  The response built from a block and a request holds the transactions of the block
  at the requested indexes, in order, up to the first index that is not below the number of
  transactions of the block; the call signals nothing about such an index (it fills the
  response and returns).
\<close>

theorem blocktxn_set_block_stops_silently:
  "btc_blocktxn_set_block hh \<lparr>res_hash = h0, res_txs = []\<rparr> blk req =
     Some \<lparr>res_hash = hh (blk_header blk),
           res_txs = map (\<lambda>i. blk_txs blk ! i)
                       (takeWhile (\<lambda>i. i < length (blk_txs blk)) (req_indexes req))\<rparr>"
  by (simp add: btc_blocktxn_set_block_def set_block_loop_eq)

lemma fill_loop_enough:
  "offset + empty_slots av \<le> length msg \<Longrightarrow>
   \<exists>av'. fill_loop av msg offset cnt = (True, av', offset + empty_slots av, cnt + empty_slots av)
       \<and> None \<notin> set av' \<and> length av' = length av"
proof (induction av msg offset cnt rule: fill_loop.induct)
  case (1 msg offset cnt)
  then show ?case by (simp add: empty_slots_def)
next
  case (2 t rest msg offset cnt)
  then show ?case by (auto simp: empty_slots_def)
next
  case (3 rest msg offset cnt)
  then show ?case by (auto simp: empty_slots_def)
qed

lemma fill_loop_short:
  "offset \<le> length msg \<Longrightarrow> length msg < offset + empty_slots av \<Longrightarrow>
   fst (fill_loop av msg offset cnt) = False"
proof (induction av msg offset cnt rule: fill_loop.induct)
  case (1 msg offset cnt)
  then show ?case by (simp add: empty_slots_def)
next
  case (2 t rest msg offset cnt)
  then show ?case by (auto simp: empty_slots_def split: prod.splits)
next
  case (3 rest msg offset cnt)
  then show ?case by (auto simp: empty_slots_def split: prod.splits)
qed

lemma slots_sum: "empty_slots av + filled_slots av = length av"
  unfolding empty_slots_def filled_slots_def
  using sum_length_filter_compl [of "\<lambda>s. s = None" av] by simp

text \<open>
  C2, as the code has it.  With \<open>avail\<close> of the length \<open>total\<close> that the function checks, and
  \<open>count\<close> the number of filled slots, \<open>btc_cmpct_fill_missing\<close> returns 1 when the
  response holds exactly as many transactions as there are empty slots, and then every
  slot is filled and \<open>count = total\<close>; it returns 0 in every other case, whether the
  response holds fewer transactions or more.
\<close>

theorem cmpct_fill_missing_counts:
  assumes len: "length (cmpct_avail blk) = length (cmpct_ptx blk) + length (cmpct_ids blk)"
    and cnt: "cmpct_count blk = filled_slots (cmpct_avail blk)"
  shows "\<exists>blk'. btc_cmpct_fill_missing blk msg =
            Some (if length (res_txs msg) = empty_slots (cmpct_avail blk) then 1 else 0, blk')
          \<and> (length (res_txs msg) = empty_slots (cmpct_avail blk) \<longrightarrow>
               cmpct_count blk' = length (cmpct_ptx blk) + length (cmpct_ids blk)
               \<and> None \<notin> set (cmpct_avail blk'))"
proof (cases "empty_slots (cmpct_avail blk) \<le> length (res_txs msg)")
  case True
  then obtain av' where av': "fill_loop (cmpct_avail blk) (res_txs msg) 0 (cmpct_count blk) =
      (True, av', empty_slots (cmpct_avail blk), cmpct_count blk + empty_slots (cmpct_avail blk))"
      "None \<notin> set av'"
    using fill_loop_enough [of 0 "cmpct_avail blk" "res_txs msg" "cmpct_count blk"] by auto
  show ?thesis
    using av' len cnt slots_sum [of "cmpct_avail blk"]
    by (auto simp: btc_cmpct_fill_missing_def)
next
  case False
  then have "fst (fill_loop (cmpct_avail blk) (res_txs msg) 0 (cmpct_count blk)) = False"
    using fill_loop_short [of 0 "res_txs msg" "cmpct_avail blk" "cmpct_count blk"] by simp
  then show ?thesis
    using False len by (auto simp: btc_cmpct_fill_missing_def split: prod.splits)
qed

text \<open>The theorem at a compact block with two empty slots and a response of two transactions.\<close>

theorem cmpct_fill_missing_counts_witness:
  "length (cmpct_avail ex_cmpct_ready) = length (cmpct_ptx ex_cmpct_ready) + length (cmpct_ids ex_cmpct_ready)
   \<and> cmpct_count ex_cmpct_ready = filled_slots (cmpct_avail ex_cmpct_ready)
   \<and> length [ex_tx 2, ex_tx 3] = empty_slots (cmpct_avail ex_cmpct_ready)
   \<and> (\<exists>blk'. btc_cmpct_fill_missing ex_cmpct_ready \<lparr>res_hash = [], res_txs = [ex_tx 2, ex_tx 3]\<rparr>
                 = Some (1, blk') \<and> cmpct_count blk' = 3 \<and> None \<notin> set (cmpct_avail blk'))"
  using cmpct_fill_missing_counts [of ex_cmpct_ready "\<lparr>res_hash = [], res_txs = [ex_tx 2, ex_tx 3]\<rparr>"]
  by (auto simp: ex_cmpct_ready_def empty_slots_def filled_slots_def numeral_3_eq_3)

text \<open>
  C2 as the specification states it asks for two distinct results.  With one empty response
  (fewer transactions than empty slots) and one of three transactions (more), the function
  returns 0 both times.
\<close>

theorem cmpct_fill_missing_same_result_counterexample:
  "length ([] :: btc_tx list) < empty_slots (cmpct_avail ex_cmpct_ready)
   \<and> empty_slots (cmpct_avail ex_cmpct_ready) < length [ex_tx 2, ex_tx 3, ex_tx 4]
   \<and> map_option fst (btc_cmpct_fill_missing ex_cmpct_ready \<lparr>res_hash = [], res_txs = []\<rparr>) = Some 0
   \<and> map_option fst (btc_cmpct_fill_missing ex_cmpct_ready
                         \<lparr>res_hash = [], res_txs = [ex_tx 2, ex_tx 3, ex_tx 4]\<rparr>) = Some 0"
  by (simp add: ex_cmpct_ready_def empty_slots_def btc_cmpct_fill_missing_def)

lemma place_length [simp]: "length (place av cs) = length av"
  by (induction av cs rule: place.induct) auto

lemma setup_prefilled_ok:
  "n + i + length ps \<le> length av \<Longrightarrow>
   \<forall>k<length ps. \<not> unreachable n (i + k) (cursors last0 (map fst ps) ! k) \<Longrightarrow>
   setup_prefilled n i last0 ps (av, cnt) =
     Some (Done (place av (zip (cursors last0 (map fst ps)) (map snd ps)), cnt + length ps))"
proof (induction ps arbitrary: i last0 av cnt)
  case Nil
  then show ?case by simp
next
  case (Cons p ps)
  obtain idx tx where p: "p = (idx, tx)" by (cases p)
  let ?c = "last0 + of_nat idx + 1"
  from Cons.prems(2) have ok0: "\<not> unreachable n i ?c"
    and rest: "\<forall>k<length ps. \<not> unreachable n (Suc i + k) (cursors ?c (map fst ps) ! k)"
    by (auto simp: p All_less_Suc2)
  from ok0 Cons.prems(1) have inr: "nat (sint ?c) < length av"
    by (auto simp: unreachable_def)
  have "setup_prefilled n (Suc i) ?c ps (av[nat (sint ?c) := Some tx], Suc cnt) =
     Some (Done (place (av[nat (sint ?c) := Some tx]) (zip (cursors ?c (map fst ps)) (map snd ps)),
                 Suc cnt + length ps))"
    using Cons.prems(1) rest by (intro Cons.IH) auto
  then show ?case
    using ok0 inr by (simp add: p unreachable_def Let_def)
qed

lemma setup_prefilled_bad:
  "n + i + length ps \<le> length av \<Longrightarrow>
   \<exists>k<length ps. unreachable n (i + k) (cursors last0 (map fst ps) ! k) \<Longrightarrow>
   \<exists>st. setup_prefilled n i last0 ps (av, cnt) = Some (Return (-1) st)"
proof (induction ps arbitrary: i last0 av cnt)
  case Nil
  then show ?case by simp
next
  case (Cons p ps)
  obtain idx tx where p: "p = (idx, tx)" by (cases p)
  let ?c = "last0 + of_nat idx + 1"
  show ?case
  proof (cases "unreachable n i ?c")
    case True
    then show ?thesis by (auto simp: p unreachable_def Let_def)
  next
    case False
    with Cons.prems(2) have rest:
      "\<exists>k<length ps. unreachable n (Suc i + k) (cursors ?c (map fst ps) ! k)"
      by (auto simp: p Ex_less_Suc2)
    from False Cons.prems(1) have inr: "nat (sint ?c) < length av"
      by (auto simp: unreachable_def)
    have "\<exists>st. setup_prefilled n (Suc i) ?c ps (av[nat (sint ?c) := Some tx], Suc cnt) =
       Some (Return (-1) st)"
      using Cons.prems(1) rest by (intro Cons.IH) auto
    then show ?thesis
      using False inr by (simp add: p unreachable_def Let_def)
  qed
qed

lemma empty_slots_Cons:
  "empty_slots (s # av) = (if s = None then Suc (empty_slots av) else empty_slots av)"
  by (simp add: empty_slots_def)

lemma empty_slots_update: "empty_slots av - 1 \<le> empty_slots (av[j := Some t])"
proof (induction av arbitrary: j)
  case Nil
  then show ?case by simp
next
  case (Cons s av)
  show ?case
  proof (cases j)
    case 0
    then show ?thesis by (simp add: empty_slots_Cons)
  next
    case (Suc j')
    have "empty_slots av - 1 \<le> empty_slots (av[j' := Some t])" by (rule Cons.IH)
    then show ?thesis using Suc by (cases s) (auto simp: empty_slots_Cons)
  qed
qed

lemma empty_slots_place: "empty_slots av - length cs \<le> empty_slots (place av cs)"
proof (induction av cs rule: place.induct)
  case (1 av)
  then show ?case by simp
next
  case (2 av c tx rest)
  have "empty_slots av - 1 \<le> empty_slots (av[nat (sint c) := Some tx])"
    by (rule empty_slots_update)
  with 2 show ?case by simp
qed

lemma skip_filled_Some:
  "0 < empty_slots (drop k av) \<Longrightarrow>
   \<exists>j. skip_filled av k = Some j \<and> k \<le> j \<and> j < length av
      \<and> Suc (empty_slots (drop (Suc j) av)) = empty_slots (drop k av)"
proof (induction av k rule: skip_filled.induct)
  case (1 av k)
  show ?case
  proof (cases "length av \<le> k")
    case True
    with "1.prems" show ?thesis by (simp add: empty_slots_def)
  next
    case False
    then have dk: "drop k av = av ! k # drop (Suc k) av"
      by (simp add: Cons_nth_drop_Suc)
    show ?thesis
    proof (cases "av ! k")
      case None
      have "skip_filled av k = Some k"
        using False None by (subst skip_filled.simps) simp
      with False dk None show ?thesis by (simp add: empty_slots_Cons)
    next
      case (Some t)
      have eq: "skip_filled av k = skip_filled av (k + 1)"
        using False Some by (subst skip_filled.simps) simp
      from "1.prems" dk Some have "0 < empty_slots (drop (k + 1) av)"
        by (simp add: empty_slots_Cons)
      with "1.IH" False Some obtain j where
        "skip_filled av (k + 1) = Some j" "k + 1 \<le> j" "j < length av"
        "Suc (empty_slots (drop (Suc j) av)) = empty_slots (drop (k + 1) av)"
        by auto
      with eq Some dk show ?thesis by (simp add: empty_slots_Cons)
    qed
  qed
qed

lemma setup_ids_returns:
  "length xs \<le> empty_slots (drop (i + offset) av) \<Longrightarrow>
   \<exists>m'. setup_ids av xs i offset m = Some (Return 0 m') \<or> setup_ids av xs i offset m = Some (Done m')"
proof (induction xs arbitrary: i offset m)
  case Nil
  then show ?case by simp
next
  case (Cons x xs)
  then have "0 < empty_slots (drop (i + offset) av)" by simp
  from skip_filled_Some [OF this] obtain j where j:
    "skip_filled av (i + offset) = Some j" "i + offset \<le> j"
    "Suc (empty_slots (drop (Suc j) av)) = empty_slots (drop (i + offset) av)"
    by auto
  show ?case
  proof (cases "btc_longtab_put m x j")
    case None
    with j show ?thesis by simp
  next
    case (Some m1)
    have "i + 1 + (j - i) = Suc j" using j(2) by simp
    with Cons.prems j(3) have "length xs \<le> empty_slots (drop (i + 1 + (j - i)) av)" by simp
    from Cons.IH [OF this, of m1] Some j show ?thesis by simp
  qed
qed

text \<open>
  C3, as the code has it.  For a compact block that passes the size tests, freshly
  initialised, \<open>btc_cmpct_setup\<close> returns and its result is -1 exactly when at some
  \<open>i\<close>-th prefilled transaction the cursor, started at -1 and advanced by \<open>_index + 1\<close>, is
  negative, above \<open>0xffff\<close> or above \<open>ids.length + i\<close>.  Otherwise every prefilled
  transaction has been stored at its cursor, in order, and \<open>count\<close> has been incremented once
  for each of them; the result is then 0 (a short id met twice) or 1.
\<close>

theorem cmpct_setup_prefilled_positions:
  assumes total: "length (cmpct_ptx blk) + length (cmpct_ids blk) \<noteq> 0"
      "length (cmpct_ptx blk) + length (cmpct_ids blk) \<le> max_block_size div 10"
      "length (cmpct_ptx blk) + length (cmpct_ids blk) \<le> (max_block_size - 81) div 60"
    and fresh: "cmpct_avail blk = []" "cmpct_count blk = 0" "cmpct_id_map blk = []"
  shows "\<exists>r blk'. btc_cmpct_setup max_block_size blk = Some (r, blk') \<and>
           (r = -1 \<longleftrightarrow>
              (\<exists>i<length (cmpct_ptx blk).
                 unreachable (length (cmpct_ids blk)) i
                   (cursors (-1) (map fst (cmpct_ptx blk)) ! i))) \<and>
           (r \<noteq> -1 \<longrightarrow>
              (r = 0 \<or> r = 1) \<and>
              cmpct_avail blk' =
                place (replicate (length (cmpct_ptx blk) + length (cmpct_ids blk)) None)
                  (zip (cursors (-1) (map fst (cmpct_ptx blk))) (map snd (cmpct_ptx blk))) \<and>
              cmpct_count blk' = length (cmpct_ptx blk))"
proof (cases "\<exists>i<length (cmpct_ptx blk).
                 unreachable (length (cmpct_ids blk)) i
                   (cursors (-1) (map fst (cmpct_ptx blk)) ! i)")
  case True
  let ?total = "length (cmpct_ptx blk) + length (cmpct_ids blk)"
  have "\<exists>st. setup_prefilled (length (cmpct_ids blk)) 0 (-1) (cmpct_ptx blk)
          (replicate ?total None, cmpct_count blk) = Some (Return (-1) st)"
    using True by (intro setup_prefilled_bad) auto
  then show ?thesis
    using True total fresh by (auto simp: btc_cmpct_setup_def Let_def)
next
  case False
  let ?total = "length (cmpct_ptx blk) + length (cmpct_ids blk)"
  let ?av = "place (replicate ?total None)
                  (zip (cursors (-1) (map fst (cmpct_ptx blk))) (map snd (cmpct_ptx blk)))"
  have pre: "setup_prefilled (length (cmpct_ids blk)) 0 (-1) (cmpct_ptx blk)
          (replicate ?total None, cmpct_count blk) = Some (Done (?av, cmpct_count blk + length (cmpct_ptx blk)))"
    using False by (intro setup_prefilled_ok) auto
  have lc: "length (cursors c xs) = length xs" for c xs
    by (induction xs arbitrary: c) auto
  have "empty_slots (replicate ?total None) - length (zip (cursors (-1) (map fst (cmpct_ptx blk))) (map snd (cmpct_ptx blk)))
         \<le> empty_slots ?av"
    by (rule empty_slots_place)
  then have "length (cmpct_ids blk) \<le> empty_slots (drop (0 + 0) ?av)"
    by (simp add: empty_slots_def lc)
  from setup_ids_returns [OF this, of "[]"] obtain m' where
    "setup_ids ?av (cmpct_ids blk) 0 0 [] = Some (Return 0 m') \<or>
     setup_ids ?av (cmpct_ids blk) 0 0 [] = Some (Done m')" by blast
  then show ?thesis
    using False total fresh pre by (auto simp: btc_cmpct_setup_def Let_def)
qed

text \<open>The theorem at \<open>ex_cmpct\<close>, whose prefilled transaction lands in the last slot.\<close>

theorem cmpct_setup_prefilled_positions_witness:
  "length (cmpct_ptx ex_cmpct) + length (cmpct_ids ex_cmpct) \<noteq> 0
   \<and> length (cmpct_ptx ex_cmpct) + length (cmpct_ids ex_cmpct) \<le> 1000000 div 10
   \<and> length (cmpct_ptx ex_cmpct) + length (cmpct_ids ex_cmpct) \<le> (1000000 - 81) div 60
   \<and> cmpct_avail ex_cmpct = [] \<and> cmpct_count ex_cmpct = 0 \<and> cmpct_id_map ex_cmpct = []
   \<and> (\<exists>r blk'. btc_cmpct_setup 1000000 ex_cmpct = Some (r, blk') \<and> (r = 0 \<or> r = 1)
          \<and> cmpct_avail blk' = [None, Some (ex_tx 1)] \<and> cmpct_count blk' = 1)"
  using cmpct_setup_prefilled_positions [of ex_cmpct 1000000]
  by (auto simp: ex_cmpct_def unreachable_def)

text \<open>
  C3 as the specification states it rejects the cursor \<open>last = ids.length + i\<close>.  At
  \<open>ex_cmpct\<close> the cursor of the prefilled transaction is 1, with one short id and
  \<open>i = 0\<close>: the code stores the transaction in slot 1 and returns 1.
\<close>

theorem cmpct_setup_last_equal_counterexample:
  "unreachable_spec (length (cmpct_ids ex_cmpct)) 0 (cursors (-1) (map fst (cmpct_ptx ex_cmpct)) ! 0)
   \<and> btc_cmpct_setup 1000000 ex_cmpct =
       Some (1, ex_cmpct\<lparr>cmpct_avail := [None, Some (ex_tx 1)], cmpct_id_map := [(5, 0)],
                        cmpct_count := 1\<rparr>)"
  by (simp add: ex_cmpct_def unreachable_spec_def btc_cmpct_setup_def skip_filled.simps
        btc_longtab_put_def)

section \<open>Properties of the transaction functions\<close>

lemma v1_prevouts_cached:
  "cache_valid H tx c \<Longrightarrow>
   \<exists>c'. sighash_v1_prevouts H K tx type (Some c) = (fst (sighash_v1_prevouts H K tx type None), Some c')
       \<and> cache_valid H tx c'"
  by (auto simp: sighash_v1_prevouts_def cache_valid_def Let_def)

lemma v1_sequences_cached:
  "cache_valid H tx c \<Longrightarrow>
   \<exists>c'. sighash_v1_sequences H K tx type (Some c) = (fst (sighash_v1_sequences H K tx type None), Some c')
       \<and> cache_valid H tx c'"
  by (auto simp: sighash_v1_sequences_def cache_valid_def Let_def)

lemma v1_outputs_cached:
  "cache_valid H tx c \<Longrightarrow>
   \<exists>c'. sighash_v1_outputs H K tx index type (Some c) = (fst (sighash_v1_outputs H K tx index type None), Some c')
       \<and> cache_valid H tx c'"
  by (auto simp: sighash_v1_outputs_def cache_valid_def Let_def)

lemma v1_none [simp]:
  "snd (sighash_v1_prevouts H K tx type None) = None"
  "snd (sighash_v1_sequences H K tx type None) = None"
  "snd (sighash_v1_outputs H K tx index type None) = None"
  by (simp_all add: sighash_v1_prevouts_def sighash_v1_sequences_def sighash_v1_outputs_def Let_def)

lemma sighash_v1_cached:
  assumes "cache_valid H tx c"
  shows "(index \<ge> length (tx_inputs tx) \<and>
            btc_tx_sighash_v1 H K tx index prev val type (Some c) = None \<and>
            btc_tx_sighash_v1 H K tx index prev val type None = None)
       \<or> (\<exists>h c'. btc_tx_sighash_v1 H K tx index prev val type (Some c) = Some (h, Some c') \<and>
            btc_tx_sighash_v1 H K tx index prev val type None = Some (h, None) \<and>
            cache_valid H tx c')"
proof (cases "index \<ge> length (tx_inputs tx)")
  case True
  then show ?thesis by (simp add: btc_tx_sighash_v1_def)
next
  case False
  from v1_prevouts_cached [OF assms] obtain c1 where
    c1: "sighash_v1_prevouts H K tx type (Some c) = (fst (sighash_v1_prevouts H K tx type None), Some c1)"
      "cache_valid H tx c1" by blast
  from v1_sequences_cached [OF c1(2)] obtain c2 where
    c2: "sighash_v1_sequences H K tx type (Some c1) = (fst (sighash_v1_sequences H K tx type None), Some c2)"
      "cache_valid H tx c2" by blast
  from v1_outputs_cached [OF c2(2)] obtain c3 where
    c3: "sighash_v1_outputs H K tx index type (Some c2) = (fst (sighash_v1_outputs H K tx index type None), Some c3)"
      "cache_valid H tx c3" by blast
  have a: "btc_tx_sighash_v1 H K tx index prev val type (Some c) =
      Some (H (btc_uint32_write (tx_version tx) @ fst (sighash_v1_prevouts H K tx type None)
               @ fst (sighash_v1_sequences H K tx type None)
               @ btc_outpoint_write (in_prevout (tx_inputs tx ! index)) @ btc_script_write prev
               @ btc_int64_write val @ btc_uint32_write (in_sequence (tx_inputs tx ! index))
               @ fst (sighash_v1_outputs H K tx index type None) @ btc_uint32_write (tx_locktime tx)
               @ btc_uint32_write type), Some c3)"
    using False by (simp add: btc_tx_sighash_v1_def c1(1) c2(1) c3(1) Let_def)
  have b: "btc_tx_sighash_v1 H K tx index prev val type None =
      Some (H (btc_uint32_write (tx_version tx) @ fst (sighash_v1_prevouts H K tx type None)
               @ fst (sighash_v1_sequences H K tx type None)
               @ btc_outpoint_write (in_prevout (tx_inputs tx ! index)) @ btc_script_write prev
               @ btc_int64_write val @ btc_uint32_write (in_sequence (tx_inputs tx ! index))
               @ fst (sighash_v1_outputs H K tx index type None) @ btc_uint32_write (tx_locktime tx)
               @ btc_uint32_write type), None)"
    using False
    by (simp add: btc_tx_sighash_v1_def Let_def case_prod_beta)
  show ?thesis using a b c3(2) by simp
qed

lemma cache_valid_zero: "cache_valid H tx zero_cache"
  by (simp add: cache_valid_def zero_cache_def)

lemma sighash_calls_valid:
  "cache_valid H tx c \<Longrightarrow> cache_valid H tx (sighash_calls H K tx c calls)"
proof (induction calls arbitrary: c)
  case Nil
  then show ?case by simp
next
  case (Cons call calls)
  obtain index prev val type where call: "call = (index, prev, val, type)"
    by (cases call) auto
  from sighash_v1_cached [OF Cons.prems, where index = index and K = K and prev = prev
      and val = val and type = type]
  show ?case
    using Cons by (auto simp: call)
qed

text \<open>
  C8.  For a transaction that does not change, the version-1 signature hash computed with a
  cache, fresh (\<open>zero_cache\<close>) or populated by any sequence of earlier calls on the same
  transaction, for any input index and type, is the one computed with no cache.
\<close>

theorem sighash_v1_cache_independent:
  "map_option fst (btc_tx_sighash_v1 hash256 K tx index prev val type
                     (Some (sighash_calls hash256 K tx zero_cache calls)))
   = map_option fst (btc_tx_sighash_v1 hash256 K tx index prev val type None)"
  using sighash_v1_cached [OF sighash_calls_valid [OF cache_valid_zero], where index = index
      and H = hash256 and tx = tx and K = K and prev = prev and val = val and type = type
      and ?K1 = K and calls1 = calls]
  by auto

text \<open>
  C5.  With \<open>(type & 0x1f) == SIGHASH_SINGLE\<close> and an input index that is not below the
  number of outputs, the version-0 signature hash is the byte \<open>0x01\<close> followed by 31 bytes
  \<open>0x00\<close>, whatever the transaction, the previous script, the other bits of the type, the
  hash function and the value of the constants.
\<close>

theorem sighash_v0_single_out_of_range:
  "type AND 0x1f = sighash_single K \<Longrightarrow> index \<ge> length (tx_outputs tx) \<Longrightarrow>
   btc_tx_sighash_v0 hash256 remove_separators K tx index prev type = Some (0x01 # replicate 31 0)"
  by (simp add: btc_tx_sighash_v0_def)

text \<open>The theorem at type \<open>0x83\<close> (\<open>SINGLE | ANYONECANPAY\<close>), input 5 of a transaction without outputs.\<close>

theorem sighash_v0_single_out_of_range_witness:
  "(0x83 :: u32) AND 0x1f = sighash_single bitcoin_sighash_types
   \<and> (5 :: nat) \<ge> length (tx_outputs (ex_tx 1))
   \<and> btc_tx_sighash_v0 id id bitcoin_sighash_types (ex_tx 1) 5 [0xab] 0x83 = Some (0x01 # replicate 31 0)"
  using sighash_v0_single_out_of_range [where type = "0x83" and K = bitcoin_sighash_types
      and index = 5 and tx = "ex_tx 1" and ?hash256.0 = id and remove_separators = id and prev = "[0xab]"]
  by (simp add: bitcoin_sighash_types_def ex_tx_def)

lemma verify_loop_returns:
  "i + length rest = length (tx_inputs tx) \<Longrightarrow>
   \<exists>b. verify_loop sv ok view_get tx view flags i cache rest = Some b"
proof (induction rest arbitrary: i cache)
  case Nil
  then show ?case by auto
next
  case (Cons input rest)
  then have "i < length (tx_inputs tx)" by simp
  moreover have "\<exists>b. verify_loop sv ok view_get tx view flags (i + 1) c rest = Some b" for c
    using Cons.prems by (intro Cons.IH) simp
  ultimately show ?case
    by (auto simp: btc_tx_verify_input_def Let_def split: option.splits prod.splits)
qed

lemma verify_loop_missing:
  "i + length rest = length (tx_inputs tx) \<Longrightarrow>
   \<exists>input\<in>set rest. view_get view (in_prevout input) = None \<Longrightarrow>
   verify_loop sv ok view_get tx view flags i cache rest = Some False"
proof (induction rest arbitrary: i cache)
  case Nil
  then show ?case by simp
next
  case (Cons input rest)
  have lt: "i < length (tx_inputs tx)" using Cons.prems(1) by simp
  show ?case
  proof (cases "view_get view (in_prevout input)")
    case None
    then show ?thesis by simp
  next
    case (Some coin)
    with Cons.prems(2) have "\<exists>input\<in>set rest. view_get view (in_prevout input) = None" by auto
    then have "verify_loop sv ok view_get tx view flags (i + 1) c rest = Some False" for c
      using Cons.prems(1) by (intro Cons.IH) simp_all
    with Some lt show ?thesis
      by (auto simp: btc_tx_verify_input_def Let_def split: option.splits prod.splits)
  qed
qed

lemma verify_loop_true:
  "verify_loop sv ok view_get tx view flags i cache rest = Some True \<Longrightarrow>
   \<forall>k<length rest. \<exists>coin c c'. view_get view (in_prevout (rest ! k)) = Some coin
       \<and> btc_tx_verify_input sv ok tx (i + k) (coin_output coin) flags c = Some (True, c')"
proof (induction rest arbitrary: i cache)
  case Nil
  then show ?case by simp
next
  case (Cons input rest)
  from Cons.prems obtain coin c' where
    coin: "view_get view (in_prevout input) = Some coin"
    and ok: "btc_tx_verify_input sv ok tx i (coin_output coin) flags cache = Some (True, c')"
    and rest: "verify_loop sv ok view_get tx view flags (i + 1) c' rest = Some True"
    by (auto split: option.splits prod.splits if_splits)
  from Cons.IH [OF rest] have IH: "\<forall>k<length rest. \<exists>coin c c'.
       view_get view (in_prevout (rest ! k)) = Some coin
       \<and> btc_tx_verify_input sv ok tx (Suc i + k) (coin_output coin) flags c = Some (True, c')"
    by simp
  show ?case
  proof (intro allI impI)
    fix k assume "k < length (input # rest)"
    show "\<exists>coin c c'. view_get view (in_prevout ((input # rest) ! k)) = Some coin
       \<and> btc_tx_verify_input sv ok tx (i + k) (coin_output coin) flags c = Some (True, c')"
    proof (cases k)
      case 0
      with coin ok show ?thesis by auto
    next
      case (Suc k')
      with \<open>k < length (input # rest)\<close> IH show ?thesis by auto
    qed
  qed
qed

text \<open>
  C10.  \<open>btc_tx_verify\<close> always returns, and its result is a truth value: 0 whenever the
  prevout of some input has no coin in the view, the value that a failed script
  verification gives as well; and 1 only if every input resolves to a coin and passes
  \<open>btc_tx_verify_input\<close> (with the cache as the earlier inputs left it).
\<close>

theorem tx_verify_missing_coin:
  "(\<exists>b. btc_tx_verify script_verify err_ok view_get tx view flags = Some b)
   \<and> ((\<exists>input\<in>set (tx_inputs tx). view_get view (in_prevout input) = None) \<longrightarrow>
        btc_tx_verify script_verify err_ok view_get tx view flags = Some False)
   \<and> (btc_tx_verify script_verify err_ok view_get tx view flags = Some True \<longrightarrow>
        (\<forall>i<length (tx_inputs tx). \<exists>coin c c'.
           view_get view (in_prevout (tx_inputs tx ! i)) = Some coin
           \<and> btc_tx_verify_input script_verify err_ok tx i (coin_output coin) flags c = Some (True, c')))"
  unfolding btc_tx_verify_def
  using verify_loop_returns [of 0 "tx_inputs tx" tx script_verify err_ok view_get view flags zero_cache]
    verify_loop_missing [of 0 "tx_inputs tx" tx view_get view script_verify err_ok flags zero_cache]
    verify_loop_true [of script_verify err_ok view_get tx view flags 0 zero_cache "tx_inputs tx"]
  by simp

text \<open>
  The theorem at \<open>ex_spend\<close>: with a view that holds a coin for its first input only, and
  with a view that holds a coin for both.
\<close>

theorem tx_verify_missing_coin_witness:
  "(\<exists>input\<in>set (tx_inputs ex_spend).
      map_of [(ex_outpoint 1 0, ex_coin 5)] (in_prevout input) = None)
   \<and> btc_tx_verify ex_accept 0 map_of ex_spend [(ex_outpoint 1 0, ex_coin 5)] 0 = Some False
   \<and> btc_tx_verify ex_accept 0 map_of ex_spend
        [(ex_outpoint 1 0, ex_coin 5), (ex_outpoint 2 0, ex_coin 6)] 0 = Some True
   \<and> (\<exists>coin c c'.
         map_of [(ex_outpoint 1 0, ex_coin 5), (ex_outpoint 2 0, ex_coin 6)]
           (in_prevout (tx_inputs ex_spend ! 1)) = Some coin
         \<and> btc_tx_verify_input ex_accept 0 ex_spend 1 (coin_output coin) 0 c = Some (True, c'))"
proof -
  have missing: "\<exists>input\<in>set (tx_inputs ex_spend).
      map_of [(ex_outpoint 1 0, ex_coin 5)] (in_prevout input) = None"
    by (simp add: ex_spend_def ex_input_def ex_outpoint_def)
  have ok: "btc_tx_verify ex_accept 0 map_of ex_spend
        [(ex_outpoint 1 0, ex_coin 5), (ex_outpoint 2 0, ex_coin 6)] 0 = Some True"
    by (simp add: btc_tx_verify_def btc_tx_verify_input_def ex_spend_def ex_input_def
          ex_outpoint_def ex_accept_def)
  have len: "1 < length (tx_inputs ex_spend)" by (simp add: ex_spend_def)
  show ?thesis
    using missing ok len
      tx_verify_missing_coin [of ex_accept 0 map_of ex_spend "[(ex_outpoint 1 0, ex_coin 5)]" 0]
      tx_verify_missing_coin [of ex_accept 0 map_of ex_spend
        "[(ex_outpoint 1 0, ex_coin 5), (ex_outpoint 2 0, ex_coin 6)]" 0]
    by blast
qed

lemma sint_add_money:
  fixes a b :: i64
  assumes "0 \<le> sint a" "sint a \<le> BTC_MAX_MONEY" "0 \<le> sint b" "sint b \<le> BTC_MAX_MONEY"
  shows "sint (a + b) = sint a + sint b"
proof -
  have "sint (a + b) = signed_take_bit (LENGTH(64) - 1) (sint a + sint b)"
    by (rule sint_word_add)
  also have "\<dots> = sint a + sint b"
    using assms by (intro signed_take_bit_int_eq_self) (simp_all add: BTC_MAX_MONEY_def)
  finally show ?thesis .
qed

lemma sanity_outputs_score: "sanity_outputs t outs = Some e \<Longrightarrow> err_score e = 100"
  by (induction outs arbitrary: t) (auto simp: THROW_def Let_def split: if_splits)

lemma sanity_outputs_iff:
  "0 \<le> sint t \<Longrightarrow> sint t \<le> BTC_MAX_MONEY \<Longrightarrow>
   sanity_outputs t outs \<noteq> None \<longleftrightarrow>
     (\<exists>out\<in>set outs. sint (out_value out) < 0 \<or> sint (out_value out) > BTC_MAX_MONEY)
   \<or> (\<exists>k\<le>length outs.
         sint t + (\<Sum>out\<leftarrow>take k outs. sint (out_value out)) < 0
       \<or> sint t + (\<Sum>out\<leftarrow>take k outs. sint (out_value out)) > BTC_MAX_MONEY)"
proof (induction outs arbitrary: t)
  case Nil
  then show ?case by simp
next
  case (Cons out outs)
  let ?v = "out_value out"
  let ?bad = "\<lambda>x. sint (out_value x) < 0 \<or> sint (out_value x) > BTC_MAX_MONEY"
  let ?run = "\<lambda>s xs k. s + (\<Sum>x\<leftarrow>take k xs. sint (out_value x))"
  show ?case
  proof (cases "?bad out")
    case True
    then show ?thesis by auto
  next
    case False
    then have v: "0 \<le> sint ?v" "sint ?v \<le> BTC_MAX_MONEY" by auto
    have add: "sint (t + ?v) = sint t + sint ?v"
      using Cons.prems v by (intro sint_add_money)
    have shift: "(\<exists>k\<le>length (out # outs). ?run (sint t) (out # outs) k < 0
                    \<or> ?run (sint t) (out # outs) k > BTC_MAX_MONEY)
        \<longleftrightarrow> (\<exists>k\<le>length outs. ?run (sint t + sint ?v) outs k < 0
                    \<or> ?run (sint t + sint ?v) outs k > BTC_MAX_MONEY)"
      (is "?L \<longleftrightarrow> ?R")
    proof
      assume ?L
      then obtain k where k: "k \<le> length (out # outs)"
        "?run (sint t) (out # outs) k < 0 \<or> ?run (sint t) (out # outs) k > BTC_MAX_MONEY"
        by blast
      with Cons.prems obtain k' where "k = Suc k'" by (cases k) auto
      with k show ?R by (intro exI [of _ k']) (auto simp: add.assoc)
    next
      assume ?R
      then obtain k where "k \<le> length outs"
        "?run (sint t + sint ?v) outs k < 0 \<or> ?run (sint t + sint ?v) outs k > BTC_MAX_MONEY"
        by blast
      then show ?L by (intro exI [of _ "Suc k"]) (auto simp: add.assoc)
    qed
    show ?thesis
    proof (cases "sint (t + ?v) > BTC_MAX_MONEY")
      case True
      then have "?R" using add by (intro exI [of _ 0]) simp
      with shift True False show ?thesis by (simp add: Let_def)
    next
      case le: False
      have ge: "0 \<le> sint (t + ?v)" using add Cons.prems v by simp
      have "sanity_outputs (t + ?v) outs \<noteq> None \<longleftrightarrow>
          (\<exists>x\<in>set outs. ?bad x)
        \<or> (\<exists>k\<le>length outs. ?run (sint (t + ?v)) outs k < 0
               \<or> ?run (sint (t + ?v)) outs k > BTC_MAX_MONEY)"
        using ge le by (intro Cons.IH) simp_all
      with shift False le ge add show ?thesis by (simp add: Let_def)
    qed
  qed
qed

lemma sanity_prevouts_score: "sanity_prevouts ins = Some e \<Longrightarrow> err_score e = 10"
  by (induction ins) (auto simp: THROW_def split: if_splits)

lemma sanity_prevouts_iff:
  "sanity_prevouts ins \<noteq> None \<longleftrightarrow> (\<exists>input\<in>set ins. btc_outpoint_is_null (in_prevout input))"
  by (induction ins) auto

lemma duplicate_inputs_loop_iff:
  "duplicate_inputs_loop seen ins \<longleftrightarrow>
     \<not> distinct (map in_prevout ins) \<or> (\<exists>input\<in>set ins. in_prevout input \<in> set seen)"
proof (induction ins arbitrary: seen)
  case Nil
  then show ?case by simp
next
  case (Cons input ins)
  have "in_prevout input \<in> set (map in_prevout ins)
      \<longleftrightarrow> (\<exists>x\<in>set ins. in_prevout x = in_prevout input)"
    unfolding set_map image_iff by metis
  with Cons show ?case by auto
qed

lemma has_duplicate_inputs_iff:
  "btc_tx_has_duplicate_inputs tx \<longleftrightarrow> \<not> distinct (map in_prevout (tx_inputs tx))"
  by (simp add: btc_tx_has_duplicate_inputs_def duplicate_inputs_loop_iff)

lemma sanity_outputs_0:
  "sanity_outputs 0 outs \<noteq> None \<longleftrightarrow>
     (\<exists>out\<in>set outs. sint (out_value out) < 0 \<or> sint (out_value out) > BTC_MAX_MONEY)
   \<or> (\<exists>k\<le>length outs.
         (\<Sum>out\<leftarrow>take k outs. sint (out_value out)) < 0
       \<or> (\<Sum>out\<leftarrow>take k outs. sint (out_value out)) > BTC_MAX_MONEY)"
  using sanity_outputs_iff [of 0 outs] by (simp add: BTC_MAX_MONEY_def)

text \<open>
  C6.  \<open>btc_tx_check_sanity\<close> fails exactly when one of the listed rejections holds: one of
  score 100 (no inputs, no outputs, base size above \<open>BTC_MAX_BLOCK_SIZE\<close>, an output value
  that is negative or above \<open>BTC_MAX_MONEY\<close>, a running sum of output values outside
  \<open>[0, BTC_MAX_MONEY]\<close>, two inputs with the same outpoint, a coinbase whose input script
  has a length outside \<open>[2, 100]\<close>) or the one of score 10 (not a coinbase, and some input
  with a null prevout).  The error it reports has score 100 when a rejection of score 100
  holds, and score 10 otherwise.
\<close>

theorem check_sanity_iff:
  "(btc_tx_check_sanity max_block_size tx \<noteq> None
      \<longleftrightarrow> sanity_reject_100 max_block_size tx \<or> sanity_reject_10 tx)
   \<and> (\<forall>e. btc_tx_check_sanity max_block_size tx = Some e \<longrightarrow>
          err_score e = (if sanity_reject_100 max_block_size tx then 100 else 10))"
proof -
  let ?outs = "sanity_outputs 0 (tx_outputs tx)"
  consider (a) "tx_inputs tx = []" | (b) "tx_inputs tx \<noteq> []" "tx_outputs tx = []"
    | (c) "tx_inputs tx \<noteq> []" "tx_outputs tx \<noteq> []" "btc_tx_base_size tx > max_block_size"
    | (d) "tx_inputs tx \<noteq> []" "tx_outputs tx \<noteq> []" "\<not> btc_tx_base_size tx > max_block_size"
          "?outs \<noteq> None"
    | (e) "tx_inputs tx \<noteq> []" "tx_outputs tx \<noteq> []" "\<not> btc_tx_base_size tx > max_block_size"
          "?outs = None" "btc_tx_has_duplicate_inputs tx"
    | (f) "tx_inputs tx \<noteq> []" "tx_outputs tx \<noteq> []" "\<not> btc_tx_base_size tx > max_block_size"
          "?outs = None" "\<not> btc_tx_has_duplicate_inputs tx" "btc_tx_is_coinbase tx"
    | (g) "tx_inputs tx \<noteq> []" "tx_outputs tx \<noteq> []" "\<not> btc_tx_base_size tx > max_block_size"
          "?outs = None" "\<not> btc_tx_has_duplicate_inputs tx" "\<not> btc_tx_is_coinbase tx"
    by blast
  then show ?thesis
  proof cases
    case a
    then show ?thesis
      by (simp add: btc_tx_check_sanity_def sanity_reject_100_def THROW_def)
  next
    case b
    then show ?thesis
      by (simp add: btc_tx_check_sanity_def sanity_reject_100_def THROW_def)
  next
    case c
    then show ?thesis
      by (simp add: btc_tx_check_sanity_def sanity_reject_100_def THROW_def)
  next
    case d
    then obtain e where e: "?outs = Some e" by auto
    have "sanity_reject_100 max_block_size tx"
      using d(4) unfolding sanity_outputs_0 sanity_reject_100_def by blast
    with d e sanity_outputs_score [OF e] show ?thesis
      by (simp add: btc_tx_check_sanity_def)
  next
    case e
    then have "sanity_reject_100 max_block_size tx"
      by (simp add: sanity_reject_100_def has_duplicate_inputs_iff)
    with e show ?thesis
      by (simp add: btc_tx_check_sanity_def THROW_def)
  next
    case f
    have no: "\<not> ((\<exists>out\<in>set (tx_outputs tx). sint (out_value out) < 0 \<or> sint (out_value out) > BTC_MAX_MONEY)
       \<or> (\<exists>k\<le>length (tx_outputs tx).
         (\<Sum>out\<leftarrow>take k (tx_outputs tx). sint (out_value out)) < 0
       \<or> (\<Sum>out\<leftarrow>take k (tx_outputs tx). sint (out_value out)) > BTC_MAX_MONEY))"
      using f(4) sanity_outputs_0 [of "tx_outputs tx"] by simp
    have r100: "sanity_reject_100 max_block_size tx \<longleftrightarrow>
        (length (in_script (tx_inputs tx ! 0)) < 2 \<or> length (in_script (tx_inputs tx ! 0)) > 100)"
      using f no unfolding sanity_reject_100_def has_duplicate_inputs_iff by blast
    have r10: "\<not> sanity_reject_10 tx" using f by (simp add: sanity_reject_10_def)
    show ?thesis
      using f r100 r10 by (auto simp: btc_tx_check_sanity_def THROW_def Let_def)
  next
    case g
    have no: "\<not> ((\<exists>out\<in>set (tx_outputs tx). sint (out_value out) < 0 \<or> sint (out_value out) > BTC_MAX_MONEY)
       \<or> (\<exists>k\<le>length (tx_outputs tx).
         (\<Sum>out\<leftarrow>take k (tx_outputs tx). sint (out_value out)) < 0
       \<or> (\<Sum>out\<leftarrow>take k (tx_outputs tx). sint (out_value out)) > BTC_MAX_MONEY))"
      using g(4) sanity_outputs_0 [of "tx_outputs tx"] by simp
    have r100: "\<not> sanity_reject_100 max_block_size tx"
      using g no unfolding sanity_reject_100_def has_duplicate_inputs_iff by blast
    have r10: "sanity_reject_10 tx \<longleftrightarrow> sanity_prevouts (tx_inputs tx) \<noteq> None"
      using g sanity_prevouts_iff [of "tx_inputs tx"] by (simp add: sanity_reject_10_def)
    have eq: "btc_tx_check_sanity max_block_size tx = sanity_prevouts (tx_inputs tx)"
      using g by (simp add: btc_tx_check_sanity_def)
    show ?thesis
      using r100 r10 eq sanity_prevouts_score [of "tx_inputs tx"] by auto
  qed
qed

subsection \<open>Serialization round trip\<close>

lemma length_le_bytes [simp]: "length (le_bytes k n) = k"
  by (induction k arbitrary: n) auto

lemma le_nat_le_bytes: "n < 256 ^ k \<Longrightarrow> le_nat (le_bytes k n) = n"
proof (induction k arbitrary: n)
  case 0
  then show ?case by simp
next
  case (Suc k)
  then have "n div 256 < 256 ^ k"
    by (simp add: less_mult_imp_div_less mult.commute)
  then have "le_nat (le_bytes k (n div 256)) = n div 256" by (rule Suc.IH)
  moreover have "unat (of_nat (n mod 256) :: u8) = n mod 256"
    by (simp add: unat_of_nat)
  ultimately show ?case by simp
qed

lemma read_le_le_bytes: "n < 256 ^ k \<Longrightarrow> read_le k (le_bytes k n @ r) = Some (n, r)"
  by (simp add: read_le_def le_nat_le_bytes)

lemma uint32_roundtrip: "btc_uint32_read (btc_uint32_write v @ r) = Some (v, r)"
proof -
  have "unat v < 256 ^ 4" using unsigned_less [of v] by simp
  then show ?thesis
    by (simp add: btc_uint32_read_def btc_uint32_write_def read_le_le_bytes)
qed

lemma int64_roundtrip: "btc_int64_read (btc_int64_write v @ r) = Some (v, r)"
proof -
  have "unat v < 256 ^ 8" using unsigned_less [of v] by simp
  then show ?thesis
    by (simp add: btc_int64_read_def btc_int64_write_def read_le_le_bytes)
qed

lemma size_roundtrip: "size_ok n \<Longrightarrow> btc_size_read (btc_size_write n @ r) = Some (n, r)"
proof -
  assume ok: "size_ok n"
  consider (a) "n < 0xfd" | (b) "0xfd \<le> n" "n \<le> 0xffff" | (c) "0xffff < n" "n \<le> 0xffffffff"
    | (d) "0xffffffff < n" by linarith
  then show ?thesis
  proof cases
    case a
    then have u: "unat (of_nat n :: u8) = n" by (simp add: unat_of_nat)
    have ne: "(of_nat n :: u8) \<noteq> w" if "n < unat w" for w
      using that u by auto
    have "(of_nat n :: u8) \<noteq> 0xff" "(of_nat n :: u8) \<noteq> 0xfe" "(of_nat n :: u8) \<noteq> 0xfd"
      using a by (auto intro!: ne)
    with a u show ?thesis
      by (simp add: btc_size_write_def btc_size_read_def)
  next
    case b
    then have "n < 256 ^ 2" by simp
    with b show ?thesis
      by (simp add: btc_size_write_def btc_size_read_def read_le_le_bytes)
  next
    case c
    then have "n < 256 ^ 4" by simp
    with c show ?thesis
      by (simp add: btc_size_write_def btc_size_read_def read_le_le_bytes)
  next
    case d
    from ok have "n < 256 ^ 8" by (simp add: size_ok_def)
    with d show ?thesis
      by (simp add: btc_size_write_def btc_size_read_def read_le_le_bytes)
  qed
qed

lemma raw_roundtrip: "btc_raw_read (length xs) (xs @ r) = Some (xs, r)"
  by (simp add: btc_raw_read_def)

lemma script_roundtrip:
  "size_ok (length sc) \<Longrightarrow> btc_script_read (btc_script_write sc @ r) = Some (sc, r)"
  by (simp add: btc_script_read_def btc_script_write_def size_roundtrip raw_roundtrip)

lemma outpoint_roundtrip:
  "length (op_hash p) = 32 \<Longrightarrow> btc_outpoint_read (btc_outpoint_write p @ r) = Some (p, r)"
  using raw_roundtrip [of "op_hash p" "btc_uint32_write (op_index p) @ r"]
  by (simp add: btc_outpoint_read_def btc_outpoint_write_def uint32_roundtrip)

lemma input_roundtrip:
  "input_ok input \<Longrightarrow>
   btc_input_read (btc_input_write input @ r) = Some (input\<lparr>in_witness := []\<rparr>, r)"
  by (simp add: btc_input_read_def btc_input_write_def input_ok_def outpoint_roundtrip
      script_roundtrip uint32_roundtrip)

lemma output_roundtrip:
  "output_ok out \<Longrightarrow> btc_output_read (btc_output_write out @ r) = Some (out, r)"
  by (simp add: btc_output_read_def btc_output_write_def output_ok_def int64_roundtrip
      script_roundtrip)

lemma read_items_roundtrip:
  "(\<And>a r. a \<in> set as \<Longrightarrow> rd (wr a @ r) = Some (f a, r)) \<Longrightarrow>
   read_items rd (length as) (concat (map wr as) @ r) = Some (map f as, r)"
  by (induction as arbitrary: r) auto

lemma vector_roundtrip:
  "size_ok (length as) \<Longrightarrow> (\<And>a r. a \<in> set as \<Longrightarrow> rd (wr a @ r) = Some (f a, r)) \<Longrightarrow>
   read_vector rd (write_vector wr as @ r) = Some (map f as, r)"
  by (simp add: read_vector_def write_vector_def size_roundtrip read_items_roundtrip)

lemma inpvec_roundtrip:
  "size_ok (length ins) \<Longrightarrow> (\<And>input. input \<in> set ins \<Longrightarrow> input_ok input) \<Longrightarrow>
   btc_inpvec_read (btc_inpvec_write ins @ r) = Some (map (\<lambda>input. input\<lparr>in_witness := []\<rparr>) ins, r)"
  unfolding btc_inpvec_read_def btc_inpvec_write_def
  by (rule vector_roundtrip) (simp_all add: input_roundtrip)

lemma outvec_roundtrip:
  "size_ok (length outs) \<Longrightarrow> (\<And>out. out \<in> set outs \<Longrightarrow> output_ok out) \<Longrightarrow>
   btc_outvec_read (btc_outvec_write outs @ r) = Some (outs, r)"
  unfolding btc_outvec_read_def btc_outvec_write_def
  using vector_roundtrip [of outs btc_output_read btc_output_write "\<lambda>out. out" r]
  by (simp add: output_roundtrip)

lemma stack_roundtrip:
  "size_ok (length st) \<Longrightarrow> (\<And>item. item \<in> set st \<Longrightarrow> size_ok (length item)) \<Longrightarrow>
   btc_stack_read (btc_stack_write st @ r) = Some (st, r)"
  unfolding btc_stack_read_def btc_stack_write_def
  using vector_roundtrip [of st btc_script_read btc_script_write "\<lambda>item. item" r]
  by (simp add: script_roundtrip)

lemma read_witnesses_roundtrip:
  "(\<And>input. input \<in> set ins \<Longrightarrow> input_ok input) \<Longrightarrow>
   read_witnesses (map (\<lambda>input. input\<lparr>in_witness := []\<rparr>) ins)
     (concat (map (\<lambda>input. btc_stack_write (in_witness input)) ins) @ r) = Some (ins, r)"
proof (induction ins arbitrary: r)
  case Nil
  then show ?case by simp
next
  case (Cons input ins)
  have ok: "input_ok input" using Cons.prems by simp
  then have "btc_stack_read (btc_stack_write (in_witness input)
       @ concat (map (\<lambda>input. btc_stack_write (in_witness input)) ins) @ r)
     = Some (in_witness input, concat (map (\<lambda>input. btc_stack_write (in_witness input)) ins) @ r)"
    by (intro stack_roundtrip) (auto simp: input_ok_def)
  moreover have "read_witnesses (map (\<lambda>input. input\<lparr>in_witness := []\<rparr>) ins)
     (concat (map (\<lambda>input. btc_stack_write (in_witness input)) ins) @ r) = Some (ins, r)"
    using Cons.prems by (intro Cons.IH) simp
  ultimately show ?case by simp
qed

lemma read_witnesses_empty:
  "(\<And>input. input \<in> set ins \<Longrightarrow> in_witness input = []) \<Longrightarrow>
   read_witnesses ins (concat (map (\<lambda>input. btc_stack_write []) ins) @ r) = Some (ins, r)"
proof (induction ins arbitrary: r)
  case Nil
  then show ?case by simp
next
  case (Cons input ins)
  have "btc_stack_read (btc_stack_write [] @ concat (map (\<lambda>input. btc_stack_write []) ins) @ r)
     = Some ([], concat (map (\<lambda>input. btc_stack_write []) ins) @ r)"
    by (intro stack_roundtrip) (auto simp: size_ok_def)
  moreover have "read_witnesses ins (concat (map (\<lambda>input. btc_stack_write []) ins) @ r) = Some (ins, r)"
    using Cons.prems by (intro Cons.IH) simp
  moreover have "input\<lparr>in_witness := []\<rparr> = input" using Cons.prems by simp
  ultimately show ?case by simp
qed

lemma has_witness_loop_iff: "has_witness_loop ins \<longleftrightarrow> (\<exists>input\<in>set ins. in_witness input \<noteq> [])"
  by (induction ins) auto

lemma size_write_hd:
  "btc_size_write n \<noteq> [] \<and> (hd (btc_size_write n) = 0 \<longleftrightarrow> n = 0)"
proof (cases "n < 0xfd")
  case True
  then have u: "unat (of_nat n :: u8) = n" by (simp add: unat_of_nat)
  have "(of_nat n :: u8) = 0 \<longleftrightarrow> n = 0"
  proof
    assume "(of_nat n :: u8) = 0"
    then have "unat (of_nat n :: u8) = 0" by simp
    with u show "n = 0" by simp
  next
    assume "n = 0"
    then show "(of_nat n :: u8) = 0" by simp
  qed
  with True show ?thesis by (simp add: btc_size_write_def)
next
  case False
  then have "n \<noteq> 0" by simp
  with False show ?thesis by (simp add: btc_size_write_def)
qed

lemma size_write_0: "btc_size_write 0 = [0]"
  by (simp add: btc_size_write_def)

lemma tx_read_marked:
  assumes ins: "size_ok (length ins)" "\<And>input. input \<in> set ins \<Longrightarrow> input_ok input"
    and outs: "size_ok (length outs)" "\<And>out. out \<in> set outs \<Longrightarrow> output_ok out"
    and shape: "ins \<noteq> [] \<or> outs = []"
    and wit: "read_witnesses (map (\<lambda>input. input\<lparr>in_witness := []\<rparr>) ins)
                (W @ btc_uint32_write lt @ r) = Some (ins, btc_uint32_write lt @ r)"
  shows "btc_tx_read (btc_uint32_write v @ [0x00, 0x01] @ btc_inpvec_write ins
            @ btc_outvec_write outs @ W @ btc_uint32_write lt @ r)
         = Some (\<lparr>tx_version = v, tx_inputs = ins, tx_outputs = outs, tx_locktime = lt\<rparr>, r)"
proof -
  have a: "btc_inpvec_read (btc_inpvec_write ins @ btc_outvec_write outs @ W @ btc_uint32_write lt @ r)
      = Some (map (\<lambda>input. input\<lparr>in_witness := []\<rparr>) ins,
              btc_outvec_write outs @ W @ btc_uint32_write lt @ r)"
    using ins by (rule inpvec_roundtrip)
  have b: "btc_outvec_read (btc_outvec_write outs @ W @ btc_uint32_write lt @ r)
      = Some (outs, W @ btc_uint32_write lt @ r)"
    using outs by (rule outvec_roundtrip)
  have c: "(1 :: u8) AND 1 \<noteq> 0" "(1 :: u8) XOR 1 = 0" by simp_all
  have d: "btc_uint32_read (btc_uint32_write v @ 0 # 1 # btc_inpvec_write ins
            @ btc_outvec_write outs @ W @ btc_uint32_write lt @ r)
      = Some (v, 0 # 1 # btc_inpvec_write ins @ btc_outvec_write outs @ W @ btc_uint32_write lt @ r)"
    by (rule uint32_roundtrip)
  show ?thesis
    using shape by (simp add: btc_tx_read_def d a b c wit uint32_roundtrip)
qed

lemma tx_read_plain:
  assumes ins: "size_ok (length ins)" "\<And>input. input \<in> set ins \<Longrightarrow> input_ok input"
    and outs: "size_ok (length outs)" "\<And>out. out \<in> set outs \<Longrightarrow> output_ok out"
    and shape: "ins \<noteq> [] \<or> outs = []"
    and nowit: "\<And>input. input \<in> set ins \<Longrightarrow> in_witness input = []"
  shows "btc_tx_read (btc_uint32_write v @ btc_inpvec_write ins
            @ btc_outvec_write outs @ btc_uint32_write lt @ r)
         = Some (\<lparr>tx_version = v, tx_inputs = ins, tx_outputs = outs, tx_locktime = lt\<rparr>, r)"
proof -
  define xs1 where "xs1 = btc_inpvec_write ins @ btc_outvec_write outs @ btc_uint32_write lt @ r"
  have clear: "map (\<lambda>input. input\<lparr>in_witness := []\<rparr>) ins = ins"
    using nowit by (simp add: map_idI)
  have a: "btc_inpvec_read xs1 = Some (ins, btc_outvec_write outs @ btc_uint32_write lt @ r)"
    unfolding xs1_def
    using inpvec_roundtrip [OF ins, of "btc_outvec_write outs @ btc_uint32_write lt @ r"] clear
    by simp
  have b: "btc_outvec_read (btc_outvec_write outs @ btc_uint32_write lt @ r)
      = Some (outs, btc_uint32_write lt @ r)"
    using outs by (rule outvec_roundtrip)
  have nomark: "\<not> (length xs1 \<ge> 2 \<and> xs1 ! 0 = 0 \<and> xs1 ! 1 \<noteq> 0)"
  proof (cases "ins = []")
    case True
    with shape have "outs = []" by simp
    with True show ?thesis
      by (simp add: xs1_def btc_inpvec_write_def btc_outvec_write_def write_vector_def size_write_0)
  next
    case False
    have "xs1 ! 0 = hd (btc_size_write (length ins))"
      using size_write_hd [of "length ins"]
      by (simp add: xs1_def btc_inpvec_write_def write_vector_def nth_append hd_conv_nth)
    moreover have "hd (btc_size_write (length ins)) \<noteq> 0"
      using size_write_hd [of "length ins"] False by simp
    ultimately show ?thesis by simp
  qed
  then have cond: "(if length xs1 \<ge> 2 \<and> xs1 ! 0 = 0 \<and> xs1 ! 1 \<noteq> 0
                    then (xs1 ! 1, drop 2 xs1) else (0 :: u8, xs1)) = (0, xs1)"
    by (simp only: if_False)
  have d: "btc_uint32_read (btc_uint32_write v @ xs1) = Some (v, xs1)"
    by (rule uint32_roundtrip)
  have z: "(0 :: u8) AND 1 = 0" by simp
  have "btc_tx_read (btc_uint32_write v @ xs1)
         = Some (\<lparr>tx_version = v, tx_inputs = ins, tx_outputs = outs, tx_locktime = lt\<rparr>, r)"
    unfolding btc_tx_read_def d option.case prod.case cond Let_def
    using shape by (simp add: a b z uint32_roundtrip)
  then show ?thesis by (simp add: xs1_def)
qed

text \<open>
  C4, as the code has it.  For every transaction whose lengths are those of a C object
  (\<open>tx_ok\<close>) and that has an input or has no output, \<open>btc_tx_read\<close> of the bytes of
  \<open>btc_tx_write\<close> returns the transaction and leaves no byte, with or without witness; and
  if the transaction has no witness, \<open>btc_tx_read\<close> of its serialization with the marker
  \<open>0x00 0x01\<close> and empty witness stacks returns the same transaction.
\<close>

theorem tx_read_write_roundtrip:
  assumes ok: "tx_ok tx"
    and shape: "tx_inputs tx \<noteq> [] \<or> tx_outputs tx = []"
  shows "btc_tx_read (btc_tx_write tx) = Some (tx, [])
       \<and> (\<not> btc_tx_has_witness tx \<longrightarrow> btc_tx_read (btc_tx_write_marked tx) = Some (tx, []))"
proof -
  have ins: "size_ok (length (tx_inputs tx))" "\<And>input. input \<in> set (tx_inputs tx) \<Longrightarrow> input_ok input"
    and outs: "size_ok (length (tx_outputs tx))" "\<And>out. out \<in> set (tx_outputs tx) \<Longrightarrow> output_ok out"
    using ok by (simp_all add: tx_ok_def)
  have tx: "\<lparr>tx_version = tx_version tx, tx_inputs = tx_inputs tx, tx_outputs = tx_outputs tx,
             tx_locktime = tx_locktime tx\<rparr> = tx" by simp
  have first: "btc_tx_read (btc_tx_write tx) = Some (tx, [])"
  proof (cases "btc_tx_has_witness tx")
    case True
    have "read_witnesses (map (\<lambda>input. input\<lparr>in_witness := []\<rparr>) (tx_inputs tx))
            (concat (map (\<lambda>input. btc_stack_write (in_witness input)) (tx_inputs tx))
             @ btc_uint32_write (tx_locktime tx) @ [])
          = Some (tx_inputs tx, btc_uint32_write (tx_locktime tx) @ [])"
      using ins(2) by (rule read_witnesses_roundtrip)
    from tx_read_marked [OF ins outs shape this, of "tx_version tx"] True tx
    show ?thesis by (simp add: btc_tx_write_def btc_uint8_write_def)
  next
    case False
    then have "\<And>input. input \<in> set (tx_inputs tx) \<Longrightarrow> in_witness input = []"
      by (simp add: btc_tx_has_witness_def has_witness_loop_iff)
    from tx_read_plain [OF ins outs shape this, of "tx_version tx" "tx_locktime tx" "[]"] False tx
    show ?thesis by (simp add: btc_tx_write_def)
  qed
  have second: "btc_tx_read (btc_tx_write_marked tx) = Some (tx, [])" if "\<not> btc_tx_has_witness tx"
  proof -
    from that have nowit: "\<And>input. input \<in> set (tx_inputs tx) \<Longrightarrow> in_witness input = []"
      by (simp add: btc_tx_has_witness_def has_witness_loop_iff)
    then have clear: "map (\<lambda>input. input\<lparr>in_witness := []\<rparr>) (tx_inputs tx) = tx_inputs tx"
      by (simp add: map_idI)
    have "read_witnesses (map (\<lambda>input. input\<lparr>in_witness := []\<rparr>) (tx_inputs tx))
            (concat (map (\<lambda>input. btc_stack_write []) (tx_inputs tx))
             @ btc_uint32_write (tx_locktime tx) @ [])
          = Some (tx_inputs tx, btc_uint32_write (tx_locktime tx) @ [])"
      unfolding clear using nowit by (rule read_witnesses_empty)
    from tx_read_marked [OF ins outs shape this, of "tx_version tx"] tx
    show ?thesis by (simp add: btc_tx_write_marked_def)
  qed
  from first second show ?thesis by simp
qed

subsection \<open>Concrete transactions\<close>

lemma le_bytes_2: "le_bytes 2 n = [of_nat (n mod 256), of_nat (n div 256 mod 256)]"
  by (simp add: numeral_2_eq_2)

lemma le_bytes_4:
  "le_bytes 4 n = [of_nat (n mod 256), of_nat (n div 256 mod 256),
                   of_nat (n div 256 div 256 mod 256), of_nat (n div 256 div 256 div 256 mod 256)]"
proof -
  have "(4 :: nat) = Suc (Suc (Suc (Suc 0)))" by simp
  then show ?thesis by (simp only: le_bytes.simps)
qed

lemma le_bytes_8:
  "le_bytes 8 n = [of_nat (n mod 256), of_nat (n div 256 mod 256),
                   of_nat (n div 256 div 256 mod 256), of_nat (n div 256 div 256 div 256 mod 256),
                   of_nat (n div 256 div 256 div 256 div 256 mod 256),
                   of_nat (n div 256 div 256 div 256 div 256 div 256 mod 256),
                   of_nat (n div 256 div 256 div 256 div 256 div 256 div 256 mod 256),
                   of_nat (n div 256 div 256 div 256 div 256 div 256 div 256 div 256 mod 256)]"
proof -
  have "(8 :: nat) = Suc (Suc (Suc (Suc (Suc (Suc (Suc (Suc 0)))))))" by simp
  then show ?thesis by (simp only: le_bytes.simps)
qed

text \<open>
  C4 as the specification states it holds for every transaction.  \<open>ex_no_inputs\<close> has no
  input and one output: its serialization starts, after the version, with the bytes
  \<open>0x00 0x01\<close> (no input, one output), which \<open>btc_tx_read\<close> takes for the marker; it then
  reads no input and no output from the bytes of the output value, returns 1 with a
  transaction that has lost its output, and leaves seven bytes.
\<close>

theorem tx_read_write_no_inputs_counterexample:
  "tx_ok ex_no_inputs
   \<and> btc_tx_read (btc_tx_write ex_no_inputs)
       = Some (\<lparr>tx_version = 1, tx_inputs = [], tx_outputs = [], tx_locktime = 0\<rparr>,
               [0, 0, 0, 0, 0, 0, 0])
   \<and> btc_tx_read (btc_tx_write ex_no_inputs) \<noteq> Some (ex_no_inputs, [])"
proof -
  have w: "btc_tx_write ex_no_inputs = [1, 0, 0, 0, 0, 1, 0, 0, 0, 0, 0, 0, 0, 0, 0, 0, 0, 0, 0]"
    by (simp add: btc_tx_write_def ex_no_inputs_def btc_tx_has_witness_def btc_uint32_write_def
        btc_inpvec_write_def btc_outvec_write_def write_vector_def btc_size_write_def
        btc_output_write_def btc_int64_write_def btc_script_write_def le_bytes_4 le_bytes_8)
  have r: "btc_tx_read [1, 0, 0, 0, 0, 1, 0, 0, 0, 0, 0, 0, 0, 0, 0, 0, 0, 0, 0]
       = Some (\<lparr>tx_version = 1, tx_inputs = [], tx_outputs = [], tx_locktime = 0\<rparr>,
               [0, 0, 0, 0, 0, 0, 0])"
    by (simp add: btc_tx_read_def btc_uint32_read_def read_le_def btc_inpvec_read_def
        btc_outvec_read_def read_vector_def btc_size_read_def)
  have ok: "tx_ok ex_no_inputs"
    by (simp add: tx_ok_def output_ok_def size_ok_def ex_no_inputs_def)
  show ?thesis
    using ok by (simp add: w r)
qed

text \<open>
  The theorem at \<open>ex_segwit\<close>, which has a witness, and at \<open>ex_spend\<close>, which has none.
\<close>

theorem tx_read_write_roundtrip_witness:
  "tx_ok ex_segwit \<and> tx_inputs ex_segwit \<noteq> []
   \<and> btc_tx_has_witness ex_segwit
   \<and> btc_tx_read (btc_tx_write ex_segwit) = Some (ex_segwit, [])
   \<and> tx_ok ex_spend \<and> tx_inputs ex_spend \<noteq> []
   \<and> \<not> btc_tx_has_witness ex_spend
   \<and> btc_tx_read (btc_tx_write ex_spend) = Some (ex_spend, [])
   \<and> btc_tx_read (btc_tx_write_marked ex_spend) = Some (ex_spend, [])"
proof -
  have a: "tx_ok ex_segwit" "tx_inputs ex_segwit \<noteq> [] \<or> tx_outputs ex_segwit = []"
    "btc_tx_has_witness ex_segwit" "tx_inputs ex_segwit \<noteq> []"
    by (simp_all add: tx_ok_def input_ok_def output_ok_def size_ok_def ex_segwit_def
        ex_outpoint_def ex_output_def btc_tx_has_witness_def)
  have b: "tx_ok ex_spend" "tx_inputs ex_spend \<noteq> [] \<or> tx_outputs ex_spend = []"
    "\<not> btc_tx_has_witness ex_spend" "tx_inputs ex_spend \<noteq> []"
    by (simp_all add: tx_ok_def input_ok_def output_ok_def size_ok_def ex_spend_def
        ex_input_def ex_outpoint_def ex_output_def btc_tx_has_witness_def)
  show ?thesis
    using a b tx_read_write_roundtrip [OF a(1) a(2)] tx_read_write_roundtrip [OF b(1) b(2)]
    by simp
qed

lemma running_sum_single:
  "(\<exists>k\<le>length [x]. P (take k [x])) \<longleftrightarrow> P [] \<or> P [x]"
proof
  assume "\<exists>k\<le>length [x]. P (take k [x])"
  then obtain k where k: "k \<le> 1" "P (take k [x])" by auto
  then consider "k = 0" | "k = 1" by linarith
  then show "P [] \<or> P [x]" using k(2) by cases simp_all
next
  assume "P [] \<or> P [x]"
  then show "\<exists>k\<le>length [x]. P (take k [x])"
  proof
    assume "P []"
    then show ?thesis by (intro exI [of _ 0]) simp
  next
    assume "P [x]"
    then show ?thesis by (intro exI [of _ 1]) simp
  qed
qed

text \<open>
  The theorem of C6 at \<open>ex_null_prevout\<close>, rejected with score 10, and at \<open>ex_spend\<close>,
  which passes.
\<close>

theorem check_sanity_iff_witness:
  "sanity_reject_10 ex_null_prevout \<and> \<not> sanity_reject_100 1000000 ex_null_prevout
   \<and> (\<exists>e. btc_tx_check_sanity 1000000 ex_null_prevout = Some e \<and> err_score e = 10)
   \<and> \<not> sanity_reject_10 ex_spend \<and> \<not> sanity_reject_100 1000000 ex_spend
   \<and> btc_tx_check_sanity 1000000 ex_spend = None"
proof -
  have sz: "btc_tx_base_size ex_null_prevout \<le> 1000000" "btc_tx_base_size ex_spend \<le> 1000000"
    by (simp_all add: btc_tx_base_size_def btc_inpvec_size_def btc_outvec_size_def
        btc_inpvec_write_def btc_outvec_write_def write_vector_def btc_size_write_def
        btc_input_write_def btc_output_write_def btc_outpoint_write_def btc_script_write_def
        btc_uint32_write_def btc_int64_write_def
        ex_null_prevout_def ex_spend_def ex_input_def ex_outpoint_def ex_output_def)
  have r10: "sanity_reject_10 ex_null_prevout" "\<not> sanity_reject_10 ex_spend"
    by (simp_all add: sanity_reject_10_def btc_tx_is_coinbase_def btc_outpoint_is_null_def
        ex_null_prevout_def ex_spend_def ex_input_def ex_outpoint_def)
  have sums: "\<not> (\<exists>k\<le>length [ex_output 10].
         (\<Sum>out\<leftarrow>take k [ex_output 10]. sint (out_value out)) < 0
       \<or> (\<Sum>out\<leftarrow>take k [ex_output 10]. sint (out_value out)) > BTC_MAX_MONEY)"
    unfolding running_sum_single [of "ex_output 10"
        "\<lambda>outs. (\<Sum>out\<leftarrow>outs. sint (out_value out)) < 0
              \<or> (\<Sum>out\<leftarrow>outs. sint (out_value out)) > BTC_MAX_MONEY"]
    by (simp add: ex_output_def BTC_MAX_MONEY_def)
  have r100: "\<not> sanity_reject_100 1000000 ex_null_prevout" "\<not> sanity_reject_100 1000000 ex_spend"
    using sz sums
    by (simp_all add: sanity_reject_100_def btc_tx_is_coinbase_def BTC_MAX_MONEY_def
        ex_null_prevout_def ex_spend_def ex_input_def ex_outpoint_def ex_output_def)
  show ?thesis
    using r10 r100 check_sanity_iff [of 1000000 ex_null_prevout] check_sanity_iff [of 1000000 ex_spend]
    by auto
qed

section \<open>Properties of the chain database\<close>

lemma ucast_now:
  fixes now :: i64
  assumes "0 \<le> sint now" "sint now < 2 ^ 32"
  shows "uint (ucast now :: u32) = sint now"
proof -
  have "word_of_int (sint now) = now" by simp
  then have "uint now = uint (word_of_int (sint now) :: i64)" by (simp only:)
  also have "\<dots> = take_bit 64 (sint now)" by (simp add: uint_word_of_int_eq del: of_int_sint)
  also have "\<dots> = sint now"
    using assms by (intro take_bit_int_eq_self) simp_all
  finally have su: "uint now = sint now" .
  have "uint (ucast now :: u32) = take_bit 32 (uint now)"
    by (simp add: unsigned_ucast_eq)
  also have "\<dots> = uint now"
    using assms su by (simp add: take_bit_int_eq_self)
  finally show ?thesis using su by simp
qed

lemma height_mod:
  fixes h :: u32
  shows "h mod 1000 = 0 \<longleftrightarrow> unat h mod 1000 = 0"
proof -
  have "unat (h mod 1000) = unat h mod 1000" by (simp add: unat_mod)
  then show ?thesis by (metis unat_eq_0)
qed

text \<open>
  C7, as the code has it.  When the clock is unavailable (\<open>time\<close> returned -1) or the
  wall clock is a time that 32 bits hold (from 1970 to 2106), \<open>btc_chaindb_should_sync\<close>
  returns true if and only if the clock is unavailable, or the block time of the entry is in
  the future relative to the wall clock, or the block is within 24 hours of the wall clock,
  or the height of the entry is a multiple of 1000.
\<close>

theorem should_sync_iff:
  assumes "now = -1 \<or> (0 \<le> sint now \<and> sint now < 2 ^ 32)"
  shows "btc_chaindb_should_sync now entry \<longleftrightarrow> should_sync_spec now entry"
proof (cases "now = -1")
  case True
  then show ?thesis by (simp add: btc_chaindb_should_sync_def should_sync_spec_def)
next
  case False
  with assms have r: "0 \<le> sint now" "sint now < 2 ^ 32" by auto
  let ?t = "hdr_time (entry_header entry)"
  let ?n = "ucast now :: u32"
  have n: "uint ?n = sint now" using r by (rule ucast_now)
  show ?thesis
  proof (cases "?n < ?t")
    case True
    then have "sint now < uint ?t" using n by (simp add: word_less_def)
    with True False show ?thesis
      by (simp add: btc_chaindb_should_sync_def should_sync_spec_def)
  next
    case ge: False
    then have le: "?t \<le> ?n" by simp
    then have d: "uint (?n - ?t) = sint now - uint ?t"
      using n by (simp add: uint_sub_if' word_le_def)
    have nf: "\<not> sint now < uint ?t" using le n by (simp add: word_le_def)
    have "?n - ?t \<le> 24 * 60 * 60 \<longleftrightarrow> uint (?n - ?t) \<le> 86400"
      by (simp add: word_le_def)
    then have w: "?n - ?t \<le> 24 * 60 * 60 \<longleftrightarrow> \<bar>sint now - uint ?t\<bar> \<le> 24 * 60 * 60"
      using d nf by simp
    show ?thesis
      using False ge nf w height_mod [of "entry_height entry"]
      by (simp add: btc_chaindb_should_sync_def should_sync_spec_def)
  qed
qed

text \<open>
  The theorem at \<open>ex_entry\<close>, one hour and then more than three years after the time of
  its block.
\<close>

theorem should_sync_iff_witness:
  "((1000003600 :: i64) = -1 \<or> (0 \<le> sint (1000003600 :: i64) \<and> sint (1000003600 :: i64) < 2 ^ 32))
   \<and> btc_chaindb_should_sync 1000003600 ex_entry \<and> should_sync_spec 1000003600 ex_entry
   \<and> ((1100000000 :: i64) = -1 \<or> (0 \<le> sint (1100000000 :: i64) \<and> sint (1100000000 :: i64) < 2 ^ 32))
   \<and> \<not> btc_chaindb_should_sync 1100000000 ex_entry \<and> \<not> should_sync_spec 1100000000 ex_entry"
proof -
  have a: "(1000003600 :: i64) = -1 \<or> (0 \<le> sint (1000003600 :: i64) \<and> sint (1000003600 :: i64) < 2 ^ 32)"
    by simp
  have b: "(1100000000 :: i64) = -1 \<or> (0 \<le> sint (1100000000 :: i64) \<and> sint (1100000000 :: i64) < 2 ^ 32)"
    by simp
  have c: "should_sync_spec 1000003600 ex_entry" "\<not> should_sync_spec 1100000000 ex_entry"
    by (simp_all add: should_sync_spec_def ex_entry_def ex_header_def)
  show ?thesis
    using a b c should_sync_iff [OF a, of ex_entry] should_sync_iff [OF b, of ex_entry] by simp
qed

text \<open>
  C7 as the specification states it holds for every wall clock.  At the wall clock
  \<open>2^32 + 5\<close> (the year 2106) the cast to \<open>uint32_t\<close> leaves 5, which is below the time of
  the block of \<open>ex_entry\<close>: the code returns true for a block that is a century old and
  whose height is 1.
\<close>

theorem should_sync_truncation_counterexample:
  "btc_chaindb_should_sync 4294967301 ex_entry \<and> \<not> should_sync_spec 4294967301 ex_entry"
  by (simp add: btc_chaindb_should_sync_def should_sync_spec_def ex_entry_def ex_header_def)

text \<open>
  C1 at the chain \<open>ex_db\<close>, with the entry at address 1, the block \<open>ex_block\<close> and the
  view \<open>ex_view\<close>.  \<open>btc_chaindb_save\<close> returns 1: the coins at the outpoints of the two
  inputs of \<open>ex_spend\<close> leave the coin table, the tip and \<open>meta['R']\<close> move to the entry.
  In \<open>btc_chaindb_disconnect_block\<close> the rounds of the inner loop for \<open>ex_spend\<close>, which
  is \<open>block->txs.items[1]\<close>, both read \<open>tx->inputs.items[1]\<close>: the two coins of the
  undo log are stored one over the other at the outpoint of the second input, and none at
  the outpoint of the first.  For the coinbase the loop pops the undo log once more, which
  is empty: \<open>btc_chaindb_disconnect\<close> does not return a view, and the coin table is not
  restored.
\<close>

theorem chaindb_disconnect_wrong_input:
  "disconnect_inputs ex_spend 1 (length (tx_inputs ex_spend)) (btc_view_create, [ex_coin 5, ex_coin 6])
     = Some (\<lparr>view_coins = [(ex_outpoint 2 0, ex_coin 5)], view_undo = []\<rparr>, [])
   \<and> tab_coin (db_kv ex_db) (ex_outpoint 1 0) = Some (ex_coin 5)
   \<and> tab_coin (db_kv ex_db) (ex_outpoint 2 0) = Some (ex_coin 6)
   \<and> (\<exists>db1. btc_chaindb_save ex_env ex_db 1 ex_block (Some ex_view)
                 = Some (1, db1, Some (ex_view\<lparr>view_undo := []\<rparr>))
          \<and> tab_coin (db_kv db1) (ex_outpoint 1 0) = None
          \<and> tab_coin (db_kv db1) (ex_outpoint 2 0) = None
          \<and> meta_R (db_kv db1) = Some (entry_hash ex_entry)
          \<and> db_tail db1 = Some 1
          \<and> btc_chaindb_disconnect ex_env db1 1 ex_block = None)"
  by (simp add: btc_chaindb_save_def btc_chaindb_write_block_def btc_chaindb_alloc_def
      btc_chaindb_connect_block_def btc_chaindb_write_undo_def
      btc_chaindb_disconnect_def btc_chaindb_disconnect_block_def btc_chaindb_read_undo_def
      btc_view_create_def btc_view_put_def btc_undo_pop_def btc_view_add_def btc_tx_coin_def
      btc_tx_is_coinbase_def btc_outpoint_is_null_def
      ex_env_def ex_coinbase_def ex_block_def ex_genesis_def ex_db_def ex_view_def
      ex_entry_def ex_header_def ex_spend_def ex_input_def ex_output_def ex_outpoint_def
      ex_coin_def Let_def)

end
